theory Spec2Isabelle
  imports Main
begin

section \<open>Data model\<close>

text \<open>
  Identifiers and hashes are compared only for equality, so a UUID and a 32-byte hash
  are strings. A Go pointer that the code compares with \<open>Equals\<close> (true on two nils,
  false on one) is an \<open>option\<close>, compared with HOL equality.
  Sequences and indexes are \<open>int64\<close> in the source; they are modelled as \<open>int\<close>: the
  only arithmetic on them is a counter incremented once per loop iteration and one
  decrement of a stored sequence, neither of which can reach the 64-bit bounds on a
  real manifest or a real pins table.
\<close>

type_synonym uuid = string
type_synonym bytes32 = string

datatype error =
    Err string
  | PanicIndexOutOfRange
  | MsgDataMissingBlobHash
  | MsgBlobNotFound
  | MsgContextCanceled

record Pin =
  pin_Sequence :: int
  pin_Masked :: bool
  pin_Hash :: bytes32
  pin_Batch :: "uuid option"
  pin_BatchHash :: "bytes32 option"
  pin_Index :: int
  pin_Signer :: string
  pin_Dispatched :: bool

record MessageManifestEntry =
  mme_ID :: uuid
  mme_Topics :: int

record DataRef =
  dr_ID :: uuid
  dr_Hash :: "bytes32 option"

record BatchManifest =
  bm_Version :: nat
  bm_ID :: "uuid option"
  bm_TX :: "uuid option"
  bm_Messages :: "MessageManifestEntry list"
  bm_Data :: "DataRef list"

section \<open>Resolving the message of a pin\<close>

text \<open>
  \<open>extractBatchMessagePin\<close>: the inner loop runs \<open>batchMsg.Topics\<close> times (not at all for
  a count that is zero or negative); the loop state is
  \<open>(totalBatchPins, msgEntry, msgBaseIndex)\<close>.
\<close>

fun topicsLoop ::
  "int \<Rightarrow> MessageManifestEntry \<Rightarrow> int \<Rightarrow> nat \<Rightarrow>
   int \<times> MessageManifestEntry option \<times> int \<Rightarrow> int \<times> MessageManifestEntry option \<times> int"
where
  "topicsLoop requiredIndex batchMsg batchMsgBaseIdx 0 st = st"
| "topicsLoop requiredIndex batchMsg batchMsgBaseIdx (Suc n) (totalBatchPins, msgEntry, msgBaseIndex) =
     topicsLoop requiredIndex batchMsg batchMsgBaseIdx n
       (if totalBatchPins = requiredIndex
        then (totalBatchPins + 1, Some batchMsg, batchMsgBaseIdx)
        else (totalBatchPins + 1, msgEntry, msgBaseIndex))"

fun messagesLoop ::
  "int \<Rightarrow> MessageManifestEntry list \<Rightarrow>
   int \<times> MessageManifestEntry option \<times> int \<Rightarrow> int \<times> MessageManifestEntry option \<times> int"
where
  "messagesLoop requiredIndex [] st = st"
| "messagesLoop requiredIndex (batchMsg # rest) (totalBatchPins, msgEntry, msgBaseIndex) =
     messagesLoop requiredIndex rest
       (topicsLoop requiredIndex batchMsg totalBatchPins (nat (mme_Topics batchMsg))
          (totalBatchPins, msgEntry, msgBaseIndex))"

definition extractBatchMessagePin ::
  "BatchManifest \<Rightarrow> int \<Rightarrow> int \<times> MessageManifestEntry option \<times> int"
where
  "extractBatchMessagePin manifest requiredIndex =
     messagesLoop requiredIndex (bm_Messages manifest) (0, None, 0)"

text \<open>The index of the first pin of entry \<open>k\<close>: the topic counts of the entries before it.\<close>

definition pinBase :: "MessageManifestEntry list \<Rightarrow> nat \<Rightarrow> int" where
  "pinBase ms k = sum_list (map mme_Topics (take k ms))"

section \<open>Records of the aggregator\<close>

datatype MessageType =
    MessageTypeDefinition
  | MessageTypeBroadcast
  | MessageTypePrivate
  | MessageTypeGroupInit
  | MessageTypeTransferBroadcast
  | MessageTypeTransferPrivate

text \<open>The message states the aggregator returns; \<open>MessageStateUnset\<close> is the empty string.\<close>

datatype MessageState = MessageStateUnset | MessageStateConfirmed | MessageStateRejected

datatype EventType = EventTypeMessageConfirmed | EventTypeMessageRejected

datatype DefinitionMessageAction = ActionReject | ActionConfirm | ActionRetry | ActionWait

datatype CacheReadOption = CRORequirePins | CRORequirePublicBlobRefs

record BlobRef =
  br_Hash :: "bytes32 option"

record Data =
  data_ID :: uuid
  data_Namespace :: string
  data_Hash :: "bytes32 option"
  data_Blob :: "BlobRef option"

record Blob =
  blob_Hash :: bytes32
  blob_PayloadRef :: string

record Message =
  msg_ID :: uuid
  msg_CID :: "uuid option"
  msg_Type :: MessageType
  msg_Author :: string
  msg_Key :: string
  msg_Namespace :: string
  msg_Topics :: "string list"
  msg_Tag :: string
  msg_Group :: "bytes32 option"
  msg_Hash :: "bytes32 option"
  msg_Pins :: "string list"
  msg_Data :: "DataRef list"
  msg_BatchID :: "uuid option"
  msg_Confirmed :: "nat option"

record Identity =
  id_ID :: uuid
  id_DID :: string
  id_Parent :: "uuid option"
  id_ProfileID :: string

record VerifierRef =
  vr_Type :: string
  vr_Value :: string

record TokenTransfer =
  tt_MessageHash :: "bytes32 option"

record BatchPersisted =
  bp_ID :: "uuid option"
  bp_Hash :: "bytes32 option"
  bp_TX :: "uuid option"
  bp_Manifest :: string

record BatchPayload =
  pl_Messages :: "Message list"
  pl_Data :: "Data list"

record HandlerResult =
  hr_Action :: DefinitionMessageAction
  hr_CustomCorrelator :: "uuid option"

text \<open>
  An event as \<open>NewEvent\<close> fills it; the random id, the creation time and the sequence
  (assigned by the store on insert) are left out.
\<close>

record Event =
  ev_Type :: EventType
  ev_Namespace :: string
  ev_Reference :: "uuid option"
  ev_Correlator :: "uuid option"
  ev_Transaction :: "uuid option"
  ev_Topic :: string

definition NewEvent :: "EventType \<Rightarrow> string \<Rightarrow> uuid option \<Rightarrow> uuid option \<Rightarrow> string \<Rightarrow> Event" where
  "NewEvent t ns ref tx topic =
     \<lparr>ev_Type = t, ev_Namespace = ns, ev_Reference = ref, ev_Correlator = None,
      ev_Transaction = tx, ev_Topic = topic\<rparr>"

text \<open>
  Modelled from the spec: the next-pin row of the batch state, whose declaration is not
  among the sources (\<open>(context, identity) \<rightarrow> next expected masked pin + nonce\<close>).
\<close>

record nextPinState =
  np_Context :: bytes32
  np_Identity :: string
  np_Hash :: bytes32
  np_Nonce :: int

text \<open>
  Modelled from the spec: the two manifest versions (\<open>{version:1, ...}\<close> is the modern
  form, an absent version the legacy one) and the identity-claim tags, whose
  declarations are not among the sources. Only their being distinct matters.
\<close>

definition ManifestVersionUnset :: nat where "ManifestVersionUnset = 0"

definition ManifestVersion1 :: nat where "ManifestVersion1 = 1"

definition SystemTagIdentityClaim :: string where
  "SystemTagIdentityClaim = ''ff_identity_claim''"

definition DeprecatedSystemTagDefineNode :: string where
  "DeprecatedSystemTagDefineNode = ''ff_define_node''"

definition DeprecatedSystemTagDefineOrganization :: string where
  "DeprecatedSystemTagDefineOrganization = ''ff_define_organization''"

section \<open>The collaborators of the aggregator\<close>

text \<open>
  The store, the caches, the identity and data managers, the definition handlers and the
  parts of the batch state that are not among the sources are parameters. Everything
  they hold is the world \<open>'w\<close>; each call takes the world and returns its result with
  the world it leaves. A finalize or pre-finalize closure is a function on the world.
  Log lines and the metrics counter are not modelled.
\<close>

type_synonym 'w closure = "'w \<Rightarrow> error option \<times> 'w"

record 'w env =
  verifierType :: string
  cacheGet :: "uuid option \<times> bytes32 option \<Rightarrow> 'w \<Rightarrow> (BatchPersisted \<times> BatchManifest) option \<times> 'w"
  cacheSet :: "uuid option \<times> bytes32 option \<Rightarrow> BatchPersisted \<times> BatchManifest \<Rightarrow> 'w \<Rightarrow> 'w"
  GetBatchByID :: "uuid option \<Rightarrow> 'w \<Rightarrow> (error + BatchPersisted option) \<times> 'w"
  UnmarshalManifest :: "string \<Rightarrow> error + BatchManifest"
  UnmarshalPayload :: "string \<Rightarrow> error + BatchPayload"
  GetMessageWithDataCached ::
    "uuid \<Rightarrow> CacheReadOption \<Rightarrow> 'w \<Rightarrow> (error + Message \<times> Data list \<times> bool) \<times> 'w"
  UnmarshalText :: "string \<Rightarrow> error + bytes32"
  sha256 :: "string \<Rightarrow> bytes32"
  CheckMaskedContextReady ::
    "Message \<Rightarrow> string \<Rightarrow> int \<Rightarrow> bytes32 \<Rightarrow> string \<Rightarrow> 'w \<Rightarrow> (error + nextPinState option) \<times> 'w"
  CheckUnmaskedContextReady ::
    "bytes32 \<Rightarrow> Message \<Rightarrow> string \<Rightarrow> int \<Rightarrow> 'w \<Rightarrow> (error + bool) \<times> 'w"
  IncrementNextPin :: "nextPinState \<Rightarrow> 'w \<Rightarrow> 'w"
  MarkMessageDispatched :: "uuid option \<Rightarrow> Message \<Rightarrow> int \<Rightarrow> MessageState \<Rightarrow> 'w \<Rightarrow> 'w"
  SetContextBlockedBy :: "bytes32 \<Rightarrow> int \<Rightarrow> 'w \<Rightarrow> 'w"
  FindIdentityForVerifier :: "string \<Rightarrow> VerifierRef \<Rightarrow> 'w \<Rightarrow> (error + Identity option) \<times> 'w"
  GetBlobMatchingHash :: "bytes32 \<Rightarrow> 'w \<Rightarrow> (error + Blob option) \<times> 'w"
  GetTokenTransfers :: "uuid \<Rightarrow> 'w \<Rightarrow> (error + TokenTransfer list) \<times> 'w"
  HandleDefinitionBroadcast ::
    "(uuid \<rightharpoonup> Message) \<Rightarrow> Message \<Rightarrow> Data list \<Rightarrow> uuid option \<Rightarrow> 'w \<Rightarrow>
     (HandlerResult \<times> error option \<times> 'w closure list \<times> 'w closure list) \<times> 'w"
  ValidateAll :: "Data list \<Rightarrow> 'w \<Rightarrow> (error + bool) \<times> 'w"
  InsertEvent :: "Event \<Rightarrow> 'w \<Rightarrow> error option \<times> 'w"
  groupEnd :: "bool \<Rightarrow> 'w \<Rightarrow> 'w \<Rightarrow> 'w"

text \<open>
  What the aggregator does that the claims observe, in the order it does it: the
  transactional groups it opens and closes, each closure it runs, each call of
  \<open>attemptMessageDispatch\<close>.
\<close>

datatype step =
    GroupBegin
  | GroupCommit
  | GroupRollback
  | PreFinalizeStep nat
  | FinalizeStep nat
  | AttemptDispatch uuid

text \<open>
  The batch state (\<open>PreFinalize\<close>, \<open>Finalize\<close>, \<open>pendingConfirms\<close>), the world, the
  offset of the event poller and the steps taken so far.
\<close>

record 'w aggregator =
  world :: 'w
  PreFinalize :: "'w closure list"
  Finalize :: "'w closure list"
  pendingConfirms :: "uuid \<rightharpoonup> Message"
  pollingOffset :: "int option"
  trace :: "step list"

section \<open>Manifest extraction\<close>

text \<open>
  Modelled from the spec: \<open>GenManifest\<close> of the persisted batch, which is not among the
  sources: a version-1 manifest with one \<open>(id, topic count)\<close> entry per message and one
  \<open>(id, hash)\<close> entry per data record.
\<close>

definition GenManifest :: "BatchPersisted \<Rightarrow> Message list \<Rightarrow> Data list \<Rightarrow> BatchManifest" where
  "GenManifest bp messages data =
     \<lparr>bm_Version = ManifestVersion1, bm_ID = bp_ID bp, bm_TX = bp_TX bp,
      bm_Messages = map (\<lambda>m. \<lparr>mme_ID = msg_ID m, mme_Topics = int (length (msg_Topics m))\<rparr>) messages,
      bm_Data = map (\<lambda>d. \<lparr>dr_ID = data_ID d, dr_Hash = data_Hash d\<rparr>) data\<rparr>"

definition migrateManifest :: "'w env \<Rightarrow> BatchPersisted \<Rightarrow> BatchManifest option" where
  "migrateManifest env persistedBatch =
     (case UnmarshalPayload env (bp_Manifest persistedBatch) of
        Inl err \<Rightarrow> None
      | Inr fullPayload \<Rightarrow>
          if length (pl_Messages fullPayload) = 0 then None
          else Some (GenManifest persistedBatch (pl_Messages fullPayload) (pl_Data fullPayload)))"

definition extractManifest :: "'w env \<Rightarrow> BatchPersisted \<Rightarrow> BatchManifest option" where
  "extractManifest env batch =
     (case UnmarshalManifest env (bp_Manifest batch) of
        Inl err \<Rightarrow> None
      | Inr manifest \<Rightarrow>
          if bm_Version manifest = ManifestVersionUnset then migrateManifest env batch
          else if bm_Version manifest = ManifestVersion1 then Some manifest
          else None)"

definition getBatchCacheKey :: "uuid option \<Rightarrow> bytes32 option \<Rightarrow> uuid option \<times> bytes32 option" where
  "getBatchCacheKey i h = (i, h)"

definition GetBatchForPin ::
  "'w env \<Rightarrow> Pin \<Rightarrow> 'w \<Rightarrow> (error + (BatchPersisted \<times> BatchManifest) option) \<times> 'w"
where
  "GetBatchForPin env pin w =
     (let cacheKey = getBatchCacheKey (pin_Batch pin) (pin_BatchHash pin) in
      case cacheGet env cacheKey w of
        (Some bce, w1) \<Rightarrow> (Inr (Some bce), w1)
      | (None, w1) \<Rightarrow>
          (case GetBatchByID env (pin_Batch pin) w1 of
             (Inl err, w2) \<Rightarrow> (Inl err, w2)
           | (Inr None, w2) \<Rightarrow> (Inr None, w2)
           | (Inr (Some batch), w2) \<Rightarrow>
               if bp_Hash batch \<noteq> pin_BatchHash pin then (Inr None, w2)
               else (case extractManifest env batch of
                       None \<Rightarrow> (Inr None, w2)
                     | Some manifest \<Rightarrow>
                         (Inr (Some (batch, manifest)), cacheSet env cacheKey (batch, manifest) w2))))"

section \<open>The on-chain consistency check\<close>

definition checkOnchainConsistency ::
  "'w env \<Rightarrow> Message \<Rightarrow> Pin \<Rightarrow> 'w \<Rightarrow> (error + bool) \<times> 'w"
where
  "checkOnchainConsistency env msg pin w =
     (let verifierRef = \<lparr>vr_Type = verifierType env, vr_Value = pin_Signer pin\<rparr> in
      if msg_Key msg = [] \<or> msg_Key msg \<noteq> pin_Signer pin then (Inr False, w)
      else
        (case FindIdentityForVerifier env (msg_Namespace msg) verifierRef w of
           (Inl err, w1) \<Rightarrow> (Inl err, w1)
         | (Inr None, w1) \<Rightarrow>
             if msg_Type msg = MessageTypeDefinition \<and>
                (msg_Tag msg = SystemTagIdentityClaim \<or>
                 msg_Tag msg = DeprecatedSystemTagDefineNode \<or>
                 msg_Tag msg = DeprecatedSystemTagDefineOrganization)
             then (Inr True, w1)
             else if msg_Type msg \<noteq> MessageTypePrivate then (Inr False, w1)
             else (Inr True, w1)
         | (Inr (Some resolvedAuthor), w1) \<Rightarrow>
             if msg_Author msg = [] \<or> id_DID resolvedAuthor \<noteq> msg_Author msg
             then (Inr False, w1)
             else (Inr True, w1)))"

section \<open>Dispatch of one message\<close>

fun resolveBlobs :: "'w env \<Rightarrow> Data list \<Rightarrow> 'w \<Rightarrow> (error + bool) \<times> 'w" where
  "resolveBlobs env [] w = (Inr True, w)"
| "resolveBlobs env (d # ds) w =
     (case data_Blob d of
        None \<Rightarrow> resolveBlobs env ds w
      | Some b \<Rightarrow>
          (case br_Hash b of
             None \<Rightarrow> resolveBlobs env ds w
           | Some h \<Rightarrow>
               (case GetBlobMatchingHash env h w of
                  (Inl err, w1) \<Rightarrow> (Inl err, w1)
                | (Inr (Some blob), w1) \<Rightarrow> resolveBlobs env ds w1
                | (Inr None, w1) \<Rightarrow> (Inr False, w1))))"

text \<open>The check of the token transfer: \<open>Inr True\<close> lets the dispatch go on.\<close>

definition transferCheck :: "'w env \<Rightarrow> Message \<Rightarrow> 'w \<Rightarrow> (error + bool) \<times> 'w" where
  "transferCheck env msg w =
     (if msg_Type msg = MessageTypeTransferBroadcast \<or> msg_Type msg = MessageTypeTransferPrivate
      then (case GetTokenTransfers env (msg_ID msg) w of
              (Inl err, w1) \<Rightarrow> (Inl err, w1)
            | (Inr [], w1) \<Rightarrow> (Inr False, w1)
            | (Inr (t # ts), w1) \<Rightarrow>
                if msg_Hash msg \<noteq> tt_MessageHash t then (Inr False, w1) else (Inr True, w1))
      else (Inr True, w))"

text \<open>
  The \<open>switch\<close> that validates the message: \<open>Inl err\<close> is the early return of
  \<open>attemptMessageDispatch\<close> with no dispatch and that error (or none),
  \<open>Inr (valid, customCorrelator)\<close> goes on to the outcome.
\<close>

definition validateMessage ::
  "'w env \<Rightarrow> Message \<Rightarrow> Data list \<Rightarrow> uuid option \<Rightarrow> 'w aggregator \<Rightarrow>
   (error option + bool \<times> uuid option) \<times> 'w aggregator"
where
  "validateMessage env msg data tx s =
     (if msg_Type msg = MessageTypeDefinition then
        (case HandleDefinitionBroadcast env (pendingConfirms s) msg data tx (world s) of
           ((handlerResult, err, pre, fin), w1) \<Rightarrow>
             (let s1 = s\<lparr>world := w1, PreFinalize := PreFinalize s @ pre, Finalize := Finalize s @ fin\<rparr> in
              if hr_Action handlerResult = ActionRetry then (Inl err, s1)
              else if hr_Action handlerResult = ActionWait then (Inl None, s1)
              else (Inr (hr_Action handlerResult = ActionConfirm, hr_CustomCorrelator handlerResult), s1)))
      else if msg_Type msg = MessageTypeGroupInit then (Inr (True, None), s)
      else if length (msg_Data msg) > 0 then
        (case ValidateAll env data (world s) of
           (Inl err, w1) \<Rightarrow> (Inl (Some err), s\<lparr>world := w1\<rparr>)
         | (Inr valid, w1) \<Rightarrow> (Inr (valid, None), s\<lparr>world := w1\<rparr>))
      else (Inr (True, None), s))"

text \<open>The closure queued by a dispatch: it inserts its events in order and stops at the first error.\<close>

fun insertEvents :: "'w env \<Rightarrow> Event list \<Rightarrow> 'w closure" where
  "insertEvents env [] w = (None, w)"
| "insertEvents env (event # events) w =
     (case InsertEvent env event w of
        (Some err, w1) \<Rightarrow> (Some err, w1)
      | (None, w1) \<Rightarrow> insertEvents env events w1)"

definition messageEvents :: "EventType \<Rightarrow> Message \<Rightarrow> uuid option \<Rightarrow> uuid option \<Rightarrow> Event list" where
  "messageEvents eventType msg tx customCorrelator =
     map (\<lambda>topic.
            (NewEvent eventType (msg_Namespace msg) (Some (msg_ID msg)) tx topic)
              \<lparr>ev_Correlator := (case customCorrelator of None \<Rightarrow> msg_CID msg | Some c \<Rightarrow> Some c)\<rparr>)
         (msg_Topics msg)"

definition attemptMessageDispatch ::
  "'w env \<Rightarrow> Message \<Rightarrow> Data list \<Rightarrow> uuid option \<Rightarrow> Pin \<Rightarrow> 'w aggregator \<Rightarrow>
   (error + MessageState \<times> bool) \<times> 'w aggregator"
where
  "attemptMessageDispatch env msg data tx pin s0 =
     (let s = s0\<lparr>trace := trace s0 @ [AttemptDispatch (msg_ID msg)]\<rparr> in
      case checkOnchainConsistency env msg pin (world s) of
        (Inl err, w1) \<Rightarrow> (Inl err, s\<lparr>world := w1\<rparr>)
      | (Inr False, w1) \<Rightarrow> (Inr (MessageStateUnset, False), s\<lparr>world := w1\<rparr>)
      | (Inr True, w1) \<Rightarrow>
          (case resolveBlobs env data w1 of
             (Inl err, w2) \<Rightarrow> (Inl err, s\<lparr>world := w2\<rparr>)
           | (Inr False, w2) \<Rightarrow> (Inr (MessageStateUnset, False), s\<lparr>world := w2\<rparr>)
           | (Inr True, w2) \<Rightarrow>
               (case transferCheck env msg w2 of
                  (Inl err, w3) \<Rightarrow> (Inl err, s\<lparr>world := w3\<rparr>)
                | (Inr False, w3) \<Rightarrow> (Inr (MessageStateUnset, False), s\<lparr>world := w3\<rparr>)
                | (Inr True, w3) \<Rightarrow>
                    (case validateMessage env msg data tx (s\<lparr>world := w3\<rparr>) of
                       (Inl None, s4) \<Rightarrow> (Inr (MessageStateUnset, False), s4)
                     | (Inl (Some err), s4) \<Rightarrow> (Inl err, s4)
                     | (Inr (valid, customCorrelator), s4) \<Rightarrow>
                         (let newState = (if valid then MessageStateConfirmed else MessageStateRejected);
                              eventType = (if valid then EventTypeMessageConfirmed else EventTypeMessageRejected);
                              s5 = (if valid
                                    then s4\<lparr>pendingConfirms := (pendingConfirms s4)(msg_ID msg \<mapsto> msg)\<rparr>
                                    else s4)
                          in (Inr (newState, True),
                              s5\<lparr>Finalize := Finalize s5 @
                                    [insertEvents env (messageEvents eventType msg tx customCorrelator)]\<rparr>))))))"

section \<open>Readiness of one message\<close>

text \<open>\<open>strings.Split\<close> on one separator character: never an empty list.\<close>

fun splitOn :: "char \<Rightarrow> string \<Rightarrow> string list" where
  "splitOn c [] = [Nil]"
| "splitOn c (x # xs) =
     (if x = c then [] # splitOn c xs
      else (case splitOn c xs of [] \<Rightarrow> [x # Nil] | y # ys \<Rightarrow> (x # y) # ys))"

text \<open>
  The iterations over the pins (masked) and the topics (unmasked) of a message:
  \<open>Inl err\<close> is the early \<open>return err\<close>, \<open>Inr\<close> carries what the loop collected.
\<close>

fun maskedLoop ::
  "'w env \<Rightarrow> Message \<Rightarrow> Pin \<Rightarrow> nat \<Rightarrow> string list \<Rightarrow> nextPinState list \<Rightarrow> 'w \<Rightarrow>
   (error option + nextPinState list) \<times> 'w"
where
  "maskedLoop env msg pin i [] nextPins w = (Inr nextPins, w)"
| "maskedLoop env msg pin i (pinStr # rest) nextPins w =
     (case splitOn CHR '':'' pinStr of
        [] \<Rightarrow> (Inl (Some PanicIndexOutOfRange), w)
      | p0 # ps \<Rightarrow>
          (let nonceStr = (case ps of [] \<Rightarrow> [] | n # ns \<Rightarrow> n) in
           case UnmarshalText env p0 of
             Inl err \<Rightarrow> (Inl None, w)
           | Inr msgContext \<Rightarrow>
               (case CheckMaskedContextReady env msg (msg_Topics msg ! i) (pin_Sequence pin)
                       msgContext nonceStr w of
                  (Inl err, w1) \<Rightarrow> (Inl (Some err), w1)
                | (Inr None, w1) \<Rightarrow> (Inl None, w1)
                | (Inr (Some nextPin), w1) \<Rightarrow>
                    maskedLoop env msg pin (Suc i) rest (nextPins @ [nextPin]) w1)))"

fun unmaskedLoop ::
  "'w env \<Rightarrow> Message \<Rightarrow> Pin \<Rightarrow> string list \<Rightarrow> bytes32 list \<Rightarrow> 'w \<Rightarrow>
   (error option + bytes32 list) \<times> 'w"
where
  "unmaskedLoop env msg pin [] unmaskedContexts w = (Inr unmaskedContexts, w)"
| "unmaskedLoop env msg pin (topic # rest) unmaskedContexts w =
     (let msgContext = sha256 env topic in
      case CheckUnmaskedContextReady env msgContext msg topic (pin_Sequence pin) w of
        (Inl err, w1) \<Rightarrow> (Inl (Some err), w1)
      | (Inr False, w1) \<Rightarrow> (Inl None, w1)
      | (Inr True, w1) \<Rightarrow> unmaskedLoop env msg pin rest (unmaskedContexts @ [msgContext]) w1)"

definition readinessCheck ::
  "'w env \<Rightarrow> Message \<Rightarrow> Pin \<Rightarrow> 'w \<Rightarrow> (error option + bytes32 list \<times> nextPinState list) \<times> 'w"
where
  "readinessCheck env msg pin w =
     (if pin_Masked pin then
        (if msg_Group msg = None \<or> length (msg_Pins msg) = 0 \<or>
            length (msg_Topics msg) \<noteq> length (msg_Pins msg)
         then (Inl None, w)
         else (case maskedLoop env msg pin 0 (msg_Pins msg) [] w of
                 (Inl r, w1) \<Rightarrow> (Inl r, w1)
               | (Inr nextPins, w1) \<Rightarrow> (Inr ([], nextPins), w1)))
      else (case unmaskedLoop env msg pin (msg_Topics msg) [] w of
              (Inl r, w1) \<Rightarrow> (Inl r, w1)
            | (Inr unmaskedContexts, w1) \<Rightarrow> (Inr (unmaskedContexts, []), w1)))"

definition processMessage ::
  "'w env \<Rightarrow> BatchManifest \<Rightarrow> Pin \<Rightarrow> int \<Rightarrow> MessageManifestEntry \<Rightarrow> 'w aggregator \<Rightarrow>
   error option \<times> 'w aggregator"
where
  "processMessage env manifest pin msgBaseIndex msgEntry s =
     (let cro = (if pin_Masked pin then CRORequirePins else CRORequirePublicBlobRefs) in
      case GetMessageWithDataCached env (mme_ID msgEntry) cro (world s) of
        (Inl err, w1) \<Rightarrow> (Some err, s\<lparr>world := w1\<rparr>)
      | (Inr (msg, data, dataAvailable), w1) \<Rightarrow>
          if \<not> dataAvailable then (None, s\<lparr>world := w1\<rparr>)
          else
            (case readinessCheck env msg pin w1 of
               (Inl r, w2) \<Rightarrow> (r, s\<lparr>world := w2\<rparr>)
             | (Inr (unmaskedContexts, nextPins), w2) \<Rightarrow>
                 (case attemptMessageDispatch env msg data (bm_TX manifest) pin (s\<lparr>world := w2\<rparr>) of
                    (Inl err, s3) \<Rightarrow> (Some err, s3)
                  | (Inr (newState, dispatched), s3) \<Rightarrow>
                      if dispatched then
                        (None,
                         s3\<lparr>world :=
                              MarkMessageDispatched env (bm_ID manifest) msg msgBaseIndex newState
                                (foldl (\<lambda>w np. IncrementNextPin env np w) (world s3) nextPins)\<rparr>)
                      else
                        (None,
                         s3\<lparr>world :=
                              foldl (\<lambda>w c. SetContextBlockedBy env c (pin_Sequence pin) w)
                                (world s3) unmaskedContexts\<rparr>))))"

section \<open>One page of pins\<close>

text \<open>
  Modelled from the spec: \<open>commitOffset\<close> of the event poller, which is not among the
  sources (\<open>After the page, commit the last pin sequence as the poller offset\<close>).
\<close>

definition commitOffset :: "int \<Rightarrow> 'w aggregator \<Rightarrow> 'w aggregator" where
  "commitOffset offset s = s\<lparr>pollingOffset := Some offset\<rparr>"

text \<open>
  The batch of a pin: fetched when no batch is held or the held one has another id,
  kept otherwise.
\<close>

definition batchOfPin ::
  "'w env \<Rightarrow> Pin \<Rightarrow> (BatchPersisted \<times> BatchManifest) option \<Rightarrow> 'w \<Rightarrow>
   (error + (BatchPersisted \<times> BatchManifest) option) \<times> 'w"
where
  "batchOfPin env pin held w =
     (case held of
        None \<Rightarrow> GetBatchForPin env pin w
      | Some (batch, manifest) \<Rightarrow>
          if bp_ID batch \<noteq> pin_Batch pin then GetBatchForPin env pin w
          else (Inr (Some (batch, manifest)), w))"

fun pinsLoop ::
  "'w env \<Rightarrow> Pin list \<Rightarrow> (BatchPersisted \<times> BatchManifest) option \<Rightarrow> uuid set \<Rightarrow> 'w aggregator \<Rightarrow>
   error option \<times> 'w aggregator"
where
  "pinsLoop env [] held dupMsgCheck s = (None, s)"
| "pinsLoop env (pin # pins) held dupMsgCheck s =
     (case batchOfPin env pin held (world s) of
        (Inl err, w1) \<Rightarrow> (Some err, s\<lparr>world := w1\<rparr>)
      | (Inr None, w1) \<Rightarrow> pinsLoop env pins None dupMsgCheck (s\<lparr>world := w1\<rparr>)
      | (Inr (Some (batch, manifest)), w1) \<Rightarrow>
          (case extractBatchMessagePin manifest (pin_Index pin) of
             (batchPinCount, None, msgBaseIndex) \<Rightarrow>
               pinsLoop env pins (Some (batch, manifest)) dupMsgCheck (s\<lparr>world := w1\<rparr>)
           | (batchPinCount, Some msgEntry, msgBaseIndex) \<Rightarrow>
               if mme_ID msgEntry \<in> dupMsgCheck
               then pinsLoop env pins (Some (batch, manifest)) dupMsgCheck (s\<lparr>world := w1\<rparr>)
               else
                 (case processMessage env manifest pin msgBaseIndex msgEntry (s\<lparr>world := w1\<rparr>) of
                    (Some err, s2) \<Rightarrow> (Some err, s2)
                  | (None, s2) \<Rightarrow>
                      pinsLoop env pins (Some (batch, manifest))
                        (insert (mme_ID msgEntry) dupMsgCheck) s2)))"

definition processPins :: "'w env \<Rightarrow> Pin list \<Rightarrow> 'w aggregator \<Rightarrow> error option \<times> 'w aggregator" where
  "processPins env pins s =
     (case pinsLoop env pins None {} s of
        (Some err, s1) \<Rightarrow> (Some err, s1)
      | (None, s1) \<Rightarrow>
          (case pins of
             [] \<Rightarrow> (Some PanicIndexOutOfRange, s1)
           | p # ps \<Rightarrow> (None, commitOffset (pin_Sequence (last pins)) s1)))"

section \<open>The two phases of a page\<close>

definition newBatchState :: "'w aggregator \<Rightarrow> 'w aggregator" where
  "newBatchState s = s\<lparr>PreFinalize := [], Finalize := [], pendingConfirms := Map.empty\<rparr>"

text \<open>
  Modelled from the spec: \<open>RunPreFinalize\<close> and \<open>RunFinalize\<close> of the batch state, which
  are not among the sources: the closures run in the order they were registered, and the
  first error ends the run and is returned. Each closure run is a step of the trace.
\<close>

fun runClosures ::
  "(nat \<Rightarrow> step) \<Rightarrow> nat \<Rightarrow> 'w closure list \<Rightarrow> 'w aggregator \<Rightarrow> error option \<times> 'w aggregator"
where
  "runClosures mk i [] s = (None, s)"
| "runClosures mk i (cb # cbs) s =
     (case cb (world s) of
        (Some err, w1) \<Rightarrow> (Some err, s\<lparr>world := w1, trace := trace s @ [mk i]\<rparr>)
      | (None, w1) \<Rightarrow> runClosures mk (Suc i) cbs (s\<lparr>world := w1, trace := trace s @ [mk i]\<rparr>))"

definition RunPreFinalize :: "'w aggregator \<Rightarrow> error option \<times> 'w aggregator" where
  "RunPreFinalize s = runClosures PreFinalizeStep 0 (PreFinalize s) s"

definition RunFinalize :: "'w aggregator \<Rightarrow> error option \<times> 'w aggregator" where
  "RunFinalize s = runClosures FinalizeStep 0 (Finalize s) s"

text \<open>
  Modelled from the spec: \<open>RunAsGroup\<close> of the store, which is not among the sources
  (\<open>Transactional RunAsGroup(ctx, fn)\<close>): the function runs inside a group that is
  committed when it returns no error and rolled back when it returns one. What the
  store keeps of the world the function left is \<open>groupEnd\<close>.
\<close>

definition RunAsGroup ::
  "'w env \<Rightarrow> ('w aggregator \<Rightarrow> error option \<times> 'w aggregator) \<Rightarrow> 'w aggregator \<Rightarrow>
   error option \<times> 'w aggregator"
where
  "RunAsGroup env fn s =
     (case fn (s\<lparr>trace := trace s @ [GroupBegin]\<rparr>) of
        (None, s1) \<Rightarrow>
          (None, s1\<lparr>world := groupEnd env True (world s) (world s1),
                    trace := trace s1 @ [GroupCommit]\<rparr>)
      | (Some err, s1) \<Rightarrow>
          (Some err, s1\<lparr>world := groupEnd env False (world s) (world s1),
                        trace := trace s1 @ [GroupRollback]\<rparr>))"

definition processWithBatchState ::
  "'w env \<Rightarrow> ('w aggregator \<Rightarrow> error option \<times> 'w aggregator) \<Rightarrow> 'w aggregator \<Rightarrow>
   error option \<times> 'w aggregator"
where
  "processWithBatchState env callback s0 =
     (let state = newBatchState s0 in
      case RunAsGroup env
             (\<lambda>s. case callback s of
                     (Some err, s1) \<Rightarrow> (Some err, s1)
                   | (None, s1) \<Rightarrow>
                       if length (PreFinalize s1) = 0 then RunFinalize s1 else (None, s1))
             state of
        (Some err, s2) \<Rightarrow> (Some err, s2)
      | (None, s2) \<Rightarrow>
          if length (PreFinalize s2) = 0 then (None, s2)
          else (case RunPreFinalize s2 of
                  (Some err, s3) \<Rightarrow> (Some err, s3)
                | (None, s3) \<Rightarrow> RunAsGroup env RunFinalize s3))"

definition processPinsEventsHandler ::
  "'w env \<Rightarrow> Pin list \<Rightarrow> 'w aggregator \<Rightarrow> error option \<times> 'w aggregator"
where
  "processPinsEventsHandler env pins s = processWithBatchState env (processPins env pins) s"

section \<open>Rewinds\<close>

text \<open>
  Modelled from the spec: \<open>retry.Do\<close>, which is not among the sources (retry until the
  parent context is cancelled): the function is called with the attempt number, and
  called again while it asks for a retry with an error; \<open>fuel\<close> is the number of
  retries left before the context is cancelled.
\<close>

fun retryDo ::
  "nat \<Rightarrow> nat \<Rightarrow> (nat \<Rightarrow> 'a \<Rightarrow> (bool \<times> error option) \<times> 'a) \<Rightarrow> 'a \<Rightarrow> error option \<times> 'a"
where
  "retryDo 0 attempt f a =
     (case f attempt a of
        ((retry, err), a1) \<Rightarrow>
          if \<not> retry \<or> err = None then (err, a1) else (Some MsgContextCanceled, a1))"
| "retryDo (Suc fuel) attempt f a =
     (case f attempt a of
        ((retry, err), a1) \<Rightarrow>
          if \<not> retry \<or> err = None then (err, a1) else retryDo fuel (Suc attempt) f a1)"

text \<open>
  Modelled from the spec: the pins table of the store and the filter that
  \<open>rewindOffchainBatches\<close> builds, as the store evaluates it: batch among the given ids,
  not dispatched, ascending by sequence, the first row only.
\<close>

definition pinMatches :: "uuid list \<Rightarrow> Pin \<Rightarrow> bool" where
  "pinMatches batchIDs p =
     ((case pin_Batch p of None \<Rightarrow> False | Some b \<Rightarrow> b \<in> set batchIDs) \<and> pin_Dispatched p = False)"

definition GetPins :: "(nat \<Rightarrow> error option) \<Rightarrow> Pin list \<Rightarrow> nat \<Rightarrow> uuid list \<Rightarrow> error + Pin list" where
  "GetPins dbError pinsTable attempt batchIDs =
     (case dbError attempt of
        Some err \<Rightarrow> Inl err
      | None \<Rightarrow> Inr (take 1 (sort_key pin_Sequence (filter (pinMatches batchIDs) pinsTable))))"

text \<open>
  \<open>rewindOffchainBatches\<close>: the queue is drained into \<open>batchIDs\<close>; the closure given to
  \<open>retry.Do\<close> works on the named results \<open>(rewind, offset)\<close>, which start as
  \<open>(false, 0)\<close>.
\<close>

definition rewindOffchainBatches ::
  "(nat \<Rightarrow> error option) \<Rightarrow> Pin list \<Rightarrow> nat \<Rightarrow> uuid list \<Rightarrow> bool \<times> int"
where
  "rewindOffchainBatches dbError pinsTable fuel queuedRewinds =
     (let batchIDs = queuedRewinds in
      snd (retryDo fuel 1
             (\<lambda>attempt (rewind, offset).
                if length batchIDs > 0 then
                  (case GetPins dbError pinsTable attempt batchIDs of
                     Inl err \<Rightarrow> ((True, Some err), (rewind, offset))
                   | Inr sequences \<Rightarrow>
                       (case sequences of
                          [] \<Rightarrow> ((False, None), (rewind, offset))
                        | p # ps \<Rightarrow> ((False, None), (True, pin_Sequence p - 1))))
                else ((False, None), (rewind, offset)))
             (False, 0)))"

text \<open>
  \<open>rewindForBlobArrival\<close>: the loop over the data records assigns the result of each
  query to \<open>messages\<close>; the batch ids collected from \<open>messages\<close> are sent to the
  \<open>rewindBatches\<close> channel (a Go map is iterated in no fixed order; the model sends them in
  the order of their first occurrence).
\<close>

fun messagesForData ::
  "(uuid \<Rightarrow> error + Message list) \<Rightarrow> DataRef list \<Rightarrow> Message list \<Rightarrow> error + Message list"
where
  "messagesForData GetMessagesForData [] messages = Inr messages"
| "messagesForData GetMessagesForData (d # ds) messages =
     (case GetMessagesForData (dr_ID d) of
        Inl err \<Rightarrow> Inl err
      | Inr found \<Rightarrow> messagesForData GetMessagesForData ds found)"

definition uniqueBatchIDs :: "Message list \<Rightarrow> uuid list" where
  "uniqueBatchIDs messages =
     remdups (concat (map (\<lambda>m. case msg_BatchID m of None \<Rightarrow> [] | Some b \<Rightarrow> [b]) messages))"

definition rewindForBlobArrival ::
  "(bytes32 \<Rightarrow> error + DataRef list) \<Rightarrow> (uuid \<Rightarrow> error + Message list) \<Rightarrow> bytes32 \<Rightarrow>
   uuid list \<Rightarrow> error option \<times> uuid list"
where
  "rewindForBlobArrival GetDataRefs GetMessagesForData blobHash rewindBatches =
     (case GetDataRefs blobHash of
        Inl err \<Rightarrow> (Some err, rewindBatches)
      | Inr data \<Rightarrow>
          (case messagesForData GetMessagesForData data [] of
             Inl err \<Rightarrow> (Some err, rewindBatches)
           | Inr messages \<Rightarrow> (None, rewindBatches @ uniqueBatchIDs messages)))"

text \<open>
  Modelled from the spec: the two store queries of \<open>rewindForBlobArrival\<close> over the data
  and message tables: the data records whose blob has the given hash, and the messages
  that refer to a data record and are not confirmed.
\<close>

record Store =
  st_Data :: "Data list"
  st_Messages :: "Message list"

definition referencesBlob :: "bytes32 \<Rightarrow> Data \<Rightarrow> bool" where
  "referencesBlob h d = (case data_Blob d of None \<Rightarrow> False | Some b \<Rightarrow> br_Hash b = Some h)"

definition storeGetDataRefs :: "Store \<Rightarrow> bytes32 \<Rightarrow> error + DataRef list" where
  "storeGetDataRefs st h =
     Inr (map (\<lambda>d. \<lparr>dr_ID = data_ID d, dr_Hash = data_Hash d\<rparr>) (filter (referencesBlob h) (st_Data st)))"

definition unconfirmedFor :: "uuid \<Rightarrow> Message \<Rightarrow> bool" where
  "unconfirmedFor dataID m = (dataID \<in> set (map dr_ID (msg_Data m)) \<and> msg_Confirmed m = None)"

definition storeGetMessagesForData :: "Store \<Rightarrow> uuid \<Rightarrow> error + Message list" where
  "storeGetMessagesForData st dataID = Inr (filter (unconfirmedFor dataID) (st_Messages st))"

section \<open>Sending a private batch\<close>




























text \<open>
  The number of pins a list of manifest entries stands for, as the iterations of
  \<open>extractBatchMessagePin\<close> count them.
\<close>

definition pinCount :: "MessageManifestEntry list \<Rightarrow> int" where
  "pinCount ms = sum_list (map (\<lambda>e. int (nat (mme_Topics e))) ms)"

section \<open>A small network to run the aggregator on\<close>

text \<open>
  One batch \<open>B6\<close> with a version-1 manifest of two messages: \<open>M6\<close> on two topics and
  \<open>M7\<close> on one. The world is the events table; nothing is cached, every context is
  ready, every key resolves to the organisation \<open>did:org1\<close>.
\<close>

definition exampleManifest :: BatchManifest where
  "exampleManifest =
     \<lparr>bm_Version = 1, bm_ID = Some ''B6'', bm_TX = Some ''TX6'',
      bm_Messages = [\<lparr>mme_ID = ''M6'', mme_Topics = 2\<rparr>, \<lparr>mme_ID = ''M7'', mme_Topics = 1\<rparr>],
      bm_Data = []\<rparr>"

definition exampleBatch :: BatchPersisted where
  "exampleBatch = \<lparr>bp_ID = Some ''B6'', bp_Hash = Some ''H6'', bp_TX = Some ''TX6'', bp_Manifest = ''v1''\<rparr>"

definition exampleMessage :: "uuid \<Rightarrow> Message" where
  "exampleMessage i =
     \<lparr>msg_ID = i, msg_CID = None, msg_Type = MessageTypeBroadcast, msg_Author = ''did:org1'',
      msg_Key = ''0xabc'', msg_Namespace = ''ns1'',
      msg_Topics = (if i = ''M6'' then [''t1'', ''t2''] else [''t3'']),
      msg_Tag = [], msg_Group = None, msg_Hash = Some ''MH'', msg_Pins = [], msg_Data = [],
      msg_BatchID = Some ''B6'', msg_Confirmed = None\<rparr>"

definition examplePin :: "int \<Rightarrow> int \<Rightarrow> Pin" where
  "examplePin seq idx =
     \<lparr>pin_Sequence = seq, pin_Masked = False, pin_Hash = ''h'', pin_Batch = Some ''B6'',
      pin_BatchHash = Some ''H6'', pin_Index = idx, pin_Signer = ''0xabc'', pin_Dispatched = False\<rparr>"

definition exampleOrg :: Identity where
  "exampleOrg = \<lparr>id_ID = ''org1'', id_DID = ''did:org1'', id_Parent = None, id_ProfileID = ''peer1''\<rparr>"

definition exampleEnv :: "Event list env" where
  "exampleEnv =
     \<lparr>verifierType = ''ethereum_address'',
      cacheGet = (\<lambda>k w. (None, w)),
      cacheSet = (\<lambda>k e w. w),
      GetBatchByID = (\<lambda>i w. (Inr (if i = Some ''B6'' then Some exampleBatch else None), w)),
      UnmarshalManifest = (\<lambda>j. if j = ''v1'' then Inr exampleManifest else Inl (Err ''invalid'')),
      UnmarshalPayload = (\<lambda>j. Inl (Err ''invalid'')),
      GetMessageWithDataCached = (\<lambda>i cro w. (Inr (exampleMessage i, [], True), w)),
      UnmarshalText = (\<lambda>t. Inr t),
      sha256 = (\<lambda>t. ''H('' @ t @ '')''),
      CheckMaskedContextReady = (\<lambda>m t q c n w. (Inr None, w)),
      CheckUnmaskedContextReady = (\<lambda>c m t q w. (Inr True, w)),
      IncrementNextPin = (\<lambda>np w. w),
      MarkMessageDispatched = (\<lambda>b m i st w. w),
      SetContextBlockedBy = (\<lambda>c q w. w),
      FindIdentityForVerifier = (\<lambda>ns v w. (Inr (Some exampleOrg), w)),
      GetBlobMatchingHash = (\<lambda>h w. (Inr None, w)),
      GetTokenTransfers = (\<lambda>i w. (Inr [], w)),
      HandleDefinitionBroadcast = (\<lambda>pc m d tx w. ((\<lparr>hr_Action = ActionConfirm, hr_CustomCorrelator = None\<rparr>, None, [], []), w)),
      ValidateAll = (\<lambda>d w. (Inr True, w)),
      InsertEvent = (\<lambda>e w. (None, w @ [e])),
      groupEnd = (\<lambda>committed before after. if committed then after else before)\<rparr>"

definition exampleStart :: "Event list aggregator" where
  "exampleStart =
     \<lparr>world = [], PreFinalize = [], Finalize = [], pendingConfirms = Map.empty,
      pollingOffset = None, trace = []\<rparr>"

text \<open>The same network with no identity registered, and a private message on it.\<close>

definition unregisteredEnv :: "Event list env" where
  "unregisteredEnv = exampleEnv\<lparr>FindIdentityForVerifier := (\<lambda>ns v w. (Inr None, w))\<rparr>"

definition examplePrivate :: Message where
  "examplePrivate = (exampleMessage ''M6'')\<lparr>msg_Type := MessageTypePrivate\<rparr>"

text \<open>
  The same network with three persisted manifests: \<open>v1\<close> as before, \<open>legacy\<close> (a full
  payload with the message \<open>M6\<close>, no version) and \<open>v2\<close> (an unknown version).
\<close>

definition legacyEnv :: "Event list env" where
  "legacyEnv =
     exampleEnv
       \<lparr>UnmarshalManifest :=
          (\<lambda>j. if j = ''v1'' then Inr exampleManifest
                else if j = ''legacy'' then Inr (exampleManifest\<lparr>bm_Version := 0, bm_Messages := []\<rparr>)
                else if j = ''v2'' then Inr (exampleManifest\<lparr>bm_Version := 2\<rparr>)
                else Inl (Err ''invalid'')),
        UnmarshalPayload :=
          (\<lambda>j. if j = ''legacy'' then Inr \<lparr>pl_Messages = [exampleMessage ''M6''], pl_Data = []\<rparr>
                else Inl (Err ''invalid'')),
        GetBatchByID :=
          (\<lambda>i w. (Inr (if i = Some ''B6'' then Some (exampleBatch\<lparr>bp_Manifest := ''v2''\<rparr>) else None), w))\<rparr>"

definition legacyBatch :: BatchPersisted where
  "legacyBatch = exampleBatch\<lparr>bp_Manifest := ''legacy''\<rparr>"

text \<open>The events of \<open>M6\<close> and the state after its dispatch from the initial state.\<close>

definition exampleEvents :: "Event list" where
  "exampleEvents = messageEvents EventTypeMessageConfirmed (exampleMessage ''M6'') (Some ''TX6'') None"


text \<open>
  Three callbacks for a page: one that registers the finalize closure of \<open>M6\<close> only, one
  that also registers a pre-finalize closure (which succeeds or fails as told), and one
  that fails.
\<close>

definition registerFinalize :: "Event list aggregator \<Rightarrow> error option \<times> Event list aggregator" where
  "registerFinalize s = (None, s\<lparr>Finalize := [insertEvents exampleEnv exampleEvents]\<rparr>)"

definition registerBoth :: "bool \<Rightarrow> Event list aggregator \<Rightarrow> error option \<times> Event list aggregator" where
  "registerBoth ok s =
     (None, s\<lparr>PreFinalize := [\<lambda>w. (if ok then None else Some (Err ''transfer failed''), w)],
               Finalize := [insertEvents exampleEnv exampleEvents]\<rparr>)"

definition failingCallback :: "Event list aggregator \<Rightarrow> error option \<times> Event list aggregator" where
  "failingCallback s = (Some (Err ''database''), s)"

text \<open>
  A pins table: three pins of batch \<open>B6\<close> (sequence 5 dispatched, 7 and 9 not) and one
  pin of batch \<open>B9\<close>; and a store whose first query fails.
\<close>

definition examplePinsTable :: "Pin list" where
  "examplePinsTable =
     [examplePin 9 2, (examplePin 5 0)\<lparr>pin_Dispatched := True\<rparr>, examplePin 7 1,
      (examplePin 3 0)\<lparr>pin_Batch := Some ''B9''\<rparr>]"

definition flakyStore :: "nat \<Rightarrow> error option" where
  "flakyStore attempt = (if attempt = 1 then Some (Err ''database'') else None)"

text \<open>
  A store with two data records that refer to the blob \<open>h\<close> and one unconfirmed message
  of batch \<open>B1\<close> that refers to the first of them.
\<close>

definition blobData :: "uuid \<Rightarrow> Data" where
  "blobData i =
     \<lparr>data_ID = i, data_Namespace = ''ns1'', data_Hash = Some (''hash-of-'' @ i),
      data_Blob = Some \<lparr>br_Hash = Some ''h''\<rparr>\<rparr>"

definition blobMessage :: Message where
  "blobMessage =
     (exampleMessage ''M1'')
       \<lparr>msg_Data := [\<lparr>dr_ID = ''d1'', dr_Hash = Some ''hash-of-d1''\<rparr>], msg_BatchID := Some ''B1''\<rparr>"

definition blobStore :: Store where
  "blobStore = \<lparr>st_Data = [blobData ''d1'', blobData ''d2''], st_Messages = [blobMessage]\<rparr>"





section \<open>Properties\<close>

lemma topicsLoop_eq:
  "topicsLoop r bm b n (t, me, mb) =
     (t + int n,
      if t \<le> r \<and> r < t + int n then Some bm else me,
      if t \<le> r \<and> r < t + int n then b else mb)"
  by (induction n arbitrary: t me mb) auto


subsection \<open>The manifest walk\<close>

lemma pinCount_Nil: "pinCount [] = 0"
  by (simp add: pinCount_def)

lemma pinCount_Cons: "pinCount (m # ms) = int (nat (mme_Topics m)) + pinCount ms"
  by (simp add: pinCount_def)

lemma pinCount_nonneg: "0 \<le> pinCount ms"
  by (induction ms) (simp_all add: pinCount_Nil pinCount_Cons)

lemma messagesLoop_Cons:
  "messagesLoop r (m # ms) (t, me, mb) =
     messagesLoop r ms
       (t + int (nat (mme_Topics m)),
        if t \<le> r \<and> r < t + int (nat (mme_Topics m)) then Some m else me,
        if t \<le> r \<and> r < t + int (nat (mme_Topics m)) then t else mb)"
  by (simp only: messagesLoop.simps topicsLoop_eq)

lemma messagesLoop_outside:
  "r < t \<or> t + pinCount ms \<le> r \<Longrightarrow>
   messagesLoop r ms (t, me, mb) = (t + pinCount ms, me, mb)"
proof (induction ms arbitrary: t)
  case Nil
  then show ?case by (simp add: pinCount_Nil)
next
  case (Cons m ms)
  define n where "n = int (nat (mme_Topics m))"
  have n0: "0 \<le> n" by (simp add: n_def)
  have pc: "pinCount (m # ms) = n + pinCount ms" by (simp only: pinCount_Cons n_def)
  have nn: "0 \<le> pinCount ms" by (rule pinCount_nonneg)
  from Cons.prems nn n0 have out: "\<not> (t \<le> r \<and> r < t + n)"
    unfolding pc by linarith
  from Cons.prems n0 have next_out: "r < t + n \<or> (t + n) + pinCount ms \<le> r"
    unfolding pc by linarith
  have "messagesLoop r (m # ms) (t, me, mb) = messagesLoop r ms (t + n, me, mb)"
    unfolding messagesLoop_Cons n_def[symmetric] using out by (simp only: if_False simp_thms)
  also have "\<dots> = (t + n + pinCount ms, me, mb)"
    by (rule Cons.IH[OF next_out])
  finally show ?case unfolding pc by (simp only: add.assoc)
qed

lemma messagesLoop_inside:
  "k < length ms \<Longrightarrow> t + pinCount (take k ms) \<le> r \<Longrightarrow>
   r < t + pinCount (take k ms) + int (nat (mme_Topics (ms ! k))) \<Longrightarrow>
   messagesLoop r ms (t, me, mb) = (t + pinCount ms, Some (ms ! k), t + pinCount (take k ms))"
proof (induction ms arbitrary: k t me mb)
  case Nil
  then show ?case by simp
next
  case (Cons m ms)
  define n where "n = int (nat (mme_Topics m))"
  have n0: "0 \<le> n" by (simp add: n_def)
  have pc: "pinCount (m # ms) = n + pinCount ms" by (simp only: pinCount_Cons n_def)
  show ?case
  proof (cases k)
    case 0
    have k0: "pinCount (take k (m # ms)) = 0" "(m # ms) ! k = m"
      using 0 by (simp_all add: pinCount_Nil)
    from Cons.prems(2,3) have inr: "t \<le> r \<and> r < t + n"
      unfolding k0 n_def by simp
    have "messagesLoop r (m # ms) (t, me, mb) = messagesLoop r ms (t + n, Some m, t)"
      unfolding messagesLoop_Cons n_def[symmetric] using inr by (simp only: if_True simp_thms)
    also have "\<dots> = (t + n + pinCount ms, Some m, t)"
      using inr by (intro messagesLoop_outside) simp
    finally show ?thesis unfolding pc k0 by (simp only: add.assoc add_0_right)
  next
    case (Suc j)
    with Cons.prems have j: "j < length ms" by simp
    have kj: "pinCount (take k (m # ms)) = n + pinCount (take j ms)" "(m # ms) ! k = ms ! j"
      using Suc by (simp_all only: take_Suc_Cons pinCount_Cons n_def nth_Cons_Suc)
    have nn: "0 \<le> pinCount (take j ms)" by (rule pinCount_nonneg)
    from Cons.prems(2,3) have lo: "(t + n) + pinCount (take j ms) \<le> r"
      and hi: "r < (t + n) + pinCount (take j ms) + int (nat (mme_Topics (ms ! j)))"
      unfolding kj by linarith+
    from lo nn have out: "\<not> (t \<le> r \<and> r < t + n)" by linarith
    have "messagesLoop r (m # ms) (t, me, mb) = messagesLoop r ms (t + n, me, mb)"
      unfolding messagesLoop_Cons n_def[symmetric] using out by (simp only: if_False simp_thms)
    also have "\<dots> = (t + n + pinCount ms, Some (ms ! j), t + n + pinCount (take j ms))"
      by (rule Cons.IH[OF j lo hi])
    finally show ?thesis unfolding pc kj by (simp only: add.assoc)
  qed
qed

lemma pinCount_nonneg_eq:
  "\<forall>e \<in> set ms. 0 \<le> mme_Topics e \<Longrightarrow> pinCount (take k ms) = pinBase ms k"
  unfolding pinCount_def pinBase_def
  by (rule arg_cong[where f = sum_list]) (auto dest: in_set_takeD)

lemma pinBase_mono:
  assumes nn: "\<forall>e \<in> set ms. 0 \<le> mme_Topics e" and jk: "j < k" and k: "k \<le> length ms"
  shows "pinBase ms j + mme_Topics (ms ! j) \<le> pinBase ms k"
proof -
  have "pinBase ms (Suc j) \<le> pinBase ms k"
    using jk k
  proof (induction k)
    case 0 then show ?case by simp
  next
    case (Suc k)
    have step: "pinBase ms (Suc k) = pinBase ms k + mme_Topics (ms ! k)"
      using Suc.prems by (simp add: pinBase_def take_Suc_conv_app_nth)
    have "0 \<le> mme_Topics (ms ! k)" using nn Suc.prems by simp
    show ?case
    proof (cases "j = k")
      case True then show ?thesis by simp
    next
      case False
      with Suc have "pinBase ms (Suc j) \<le> pinBase ms k" by simp
      with step \<open>0 \<le> mme_Topics (ms ! k)\<close> show ?thesis by simp
    qed
  qed
  moreover have "pinBase ms (Suc j) = pinBase ms j + mme_Topics (ms ! j)"
    using jk k by (simp add: pinBase_def take_Suc_conv_app_nth)
  ultimately show ?thesis by simp
qed


lemma pinBase_total:
  "\<forall>e \<in> set ms. 0 \<le> mme_Topics e \<Longrightarrow> pinCount ms = pinBase ms (length ms)"
  using pinCount_nonneg_eq[of ms "length ms"] by simp

lemma extract_inside:
  assumes nn: "\<forall>e \<in> set (bm_Messages m). 0 \<le> mme_Topics e"
    and k: "k < length (bm_Messages m)"
    and lo: "pinBase (bm_Messages m) k \<le> i"
    and hi: "i < pinBase (bm_Messages m) k + mme_Topics (bm_Messages m ! k)"
  shows "extractBatchMessagePin m i =
           (pinBase (bm_Messages m) (length (bm_Messages m)), Some (bm_Messages m ! k),
            pinBase (bm_Messages m) k)"
proof -
  have tk: "0 \<le> mme_Topics (bm_Messages m ! k)" using nn k by simp
  have lo': "0 + pinCount (take k (bm_Messages m)) \<le> i"
    using lo by (simp add: pinCount_nonneg_eq[OF nn])
  have hi': "i < 0 + pinCount (take k (bm_Messages m)) + int (nat (mme_Topics (bm_Messages m ! k)))"
    using hi tk by (simp add: pinCount_nonneg_eq[OF nn])
  show ?thesis
    unfolding extractBatchMessagePin_def messagesLoop_inside[OF k lo' hi']
    by (simp add: pinCount_nonneg_eq[OF nn] pinBase_total[OF nn])
qed

lemma extract_outside:
  assumes nn: "\<forall>e \<in> set (bm_Messages m). 0 \<le> mme_Topics e"
    and out: "i < 0 \<or> pinBase (bm_Messages m) (length (bm_Messages m)) \<le> i"
  shows "extractBatchMessagePin m i = (pinBase (bm_Messages m) (length (bm_Messages m)), None, 0)"
proof -
  have "i < 0 \<or> 0 + pinCount (bm_Messages m) \<le> i"
    using out by (simp add: pinBase_total[OF nn])
  then show ?thesis
    unfolding extractBatchMessagePin_def
    by (simp add: messagesLoop_outside pinBase_total[OF nn])
qed

lemma range_unique:
  assumes nn: "\<forall>e \<in> set ms. 0 \<le> mme_Topics e"
    and k: "k < length ms" and j: "j < length ms"
    and ik: "pinBase ms k \<le> i" "i < pinBase ms k + mme_Topics (ms ! k)"
    and ij: "pinBase ms j \<le> i" "i < pinBase ms j + mme_Topics (ms ! j)"
  shows "j = k"
proof (rule ccontr)
  assume "j \<noteq> k"
  then consider "j < k" | "k < j" by linarith
  then show False
  proof cases
    case 1
    from pinBase_mono[OF nn 1] k ik ij show False by simp
  next
    case 2
    from pinBase_mono[OF nn 2] j ik ij show False by simp
  qed
qed

text \<open>
  C4. In a manifest whose topic counts are not negative, the pin of index \<open>i\<close> resolves to
  the entry \<open>k\<close> whose range of pins, from the sum of the counts before it up to that sum
  plus its own count, contains \<open>i\<close>; no other entry's range contains \<open>i\<close>. An index
  below zero or beyond the total resolves to no entry, and the page goes on with the
  next pin, the batch state untouched.
\<close>

theorem pin_resolves_to_cumulative_range:
  assumes nn: "\<forall>e \<in> set (bm_Messages manifest). 0 \<le> mme_Topics e"
  shows "(k < length (bm_Messages manifest) \<and>
          pinBase (bm_Messages manifest) k \<le> i \<and>
          i < pinBase (bm_Messages manifest) k + mme_Topics (bm_Messages manifest ! k) \<longrightarrow>
            extractBatchMessagePin manifest i =
              (pinBase (bm_Messages manifest) (length (bm_Messages manifest)),
               Some (bm_Messages manifest ! k), pinBase (bm_Messages manifest) k) \<and>
            (\<forall>j < length (bm_Messages manifest).
               pinBase (bm_Messages manifest) j \<le> i \<and>
               i < pinBase (bm_Messages manifest) j + mme_Topics (bm_Messages manifest ! j) \<longrightarrow> j = k))
       \<and> (i < 0 \<or> pinBase (bm_Messages manifest) (length (bm_Messages manifest)) \<le> i \<longrightarrow>
            extractBatchMessagePin manifest i =
              (pinBase (bm_Messages manifest) (length (bm_Messages manifest)), None, 0) \<and>
            (pin_Index pin = i \<and>
             batchOfPin env pin held (world s) = (Inr (Some (batch, manifest)), w1) \<longrightarrow>
               pinsLoop env (pin # pins) held dupMsgCheck s =
                 pinsLoop env pins (Some (batch, manifest)) dupMsgCheck (s\<lparr>world := w1\<rparr>)))"
proof (intro conjI impI allI)
  assume a: "k < length (bm_Messages manifest) \<and>
          pinBase (bm_Messages manifest) k \<le> i \<and>
          i < pinBase (bm_Messages manifest) k + mme_Topics (bm_Messages manifest ! k)"
  then show "extractBatchMessagePin manifest i =
              (pinBase (bm_Messages manifest) (length (bm_Messages manifest)),
               Some (bm_Messages manifest ! k), pinBase (bm_Messages manifest) k)"
    using extract_inside[OF nn] by blast
  fix j
  assume "j < length (bm_Messages manifest)"
    and "pinBase (bm_Messages manifest) j \<le> i \<and>
         i < pinBase (bm_Messages manifest) j + mme_Topics (bm_Messages manifest ! j)"
  with a show "j = k" using range_unique[OF nn] by blast
next
  assume out: "i < 0 \<or> pinBase (bm_Messages manifest) (length (bm_Messages manifest)) \<le> i"
  show ex: "extractBatchMessagePin manifest i =
              (pinBase (bm_Messages manifest) (length (bm_Messages manifest)), None, 0)"
    by (rule extract_outside[OF nn out])
  assume "pin_Index pin = i \<and>
          batchOfPin env pin held (world s) = (Inr (Some (batch, manifest)), w1)"
  with ex show "pinsLoop env (pin # pins) held dupMsgCheck s =
                 pinsLoop env pins (Some (batch, manifest)) dupMsgCheck (s\<lparr>world := w1\<rparr>)"
    by simp
qed

lemma example_counts: "\<forall>e \<in> set (bm_Messages exampleManifest). 0 \<le> mme_Topics e"
  by (simp add: exampleManifest_def)

lemma example_batchOfPin:
  "batchOfPin exampleEnv (examplePin q i) None w = (Inr (Some (exampleBatch, exampleManifest)), w)"
  by (simp add: batchOfPin_def GetBatchForPin_def getBatchCacheKey_def exampleEnv_def examplePin_def
      exampleBatch_def extractManifest_def exampleManifest_def ManifestVersionUnset_def
      ManifestVersion1_def)

theorem pin_resolves_to_cumulative_range_witness:
  "list_all (\<lambda>e. 0 \<le> mme_Topics e) (bm_Messages exampleManifest) \<and>
   pinBase (bm_Messages exampleManifest) 1 \<le> 2 \<and>
   2 < pinBase (bm_Messages exampleManifest) 1 + mme_Topics (bm_Messages exampleManifest ! 1) \<and>
   extractBatchMessagePin exampleManifest 2 = (3, Some \<lparr>mme_ID = ''M7'', mme_Topics = 1\<rparr>, 2) \<and>
   pinBase (bm_Messages exampleManifest) (length (bm_Messages exampleManifest)) \<le> 5 \<and>
   extractBatchMessagePin exampleManifest 5 = (3, None, 0) \<and>
   batchOfPin exampleEnv (examplePin 1 5) None (world exampleStart) =
     (Inr (Some (exampleBatch, exampleManifest)), []) \<and>
   pinsLoop exampleEnv [examplePin 1 5] None {} exampleStart = (None, exampleStart)"
proof -
  have pb: "pinBase (bm_Messages exampleManifest) 1 = 2"
    "pinBase (bm_Messages exampleManifest) (length (bm_Messages exampleManifest)) = 3"
    "mme_Topics (bm_Messages exampleManifest ! 1) = 1"
    "bm_Messages exampleManifest ! 1 = \<lparr>mme_ID = ''M7'', mme_Topics = 1\<rparr>"
    "length (bm_Messages exampleManifest) = 2"
    "pinBase (bm_Messages exampleManifest) 2 = 3"
    by (simp_all add: pinBase_def exampleManifest_def)
  have bop: "batchOfPin exampleEnv (examplePin 1 5) None (world exampleStart) =
     (Inr (Some (exampleBatch, exampleManifest)), [])"
    by (simp add: example_batchOfPin exampleStart_def)
  have idx: "pin_Index (examplePin 1 5) = 5" by (simp add: examplePin_def)
  have w: "exampleStart\<lparr>world := []\<rparr> = exampleStart" by (simp add: exampleStart_def)
  have h1: "1 < length (bm_Messages exampleManifest) \<and>
          pinBase (bm_Messages exampleManifest) 1 \<le> 2 \<and>
          2 < pinBase (bm_Messages exampleManifest) 1 + mme_Topics (bm_Messages exampleManifest ! 1)"
    by (simp add: pinBase_def exampleManifest_def)
  have h2: "(5::int) < 0 \<or> pinBase (bm_Messages exampleManifest) (length (bm_Messages exampleManifest)) \<le> 5"
    by (simp add: pinBase_def exampleManifest_def)
  have h3: "pin_Index (examplePin 1 5) = 5 \<and>
            batchOfPin exampleEnv (examplePin 1 5) None (world exampleStart) =
              (Inr (Some (exampleBatch, exampleManifest)), [])"
    using bop idx by simp
  note inside = pin_resolves_to_cumulative_range[OF example_counts, of 1 2,
      THEN conjunct1, THEN mp, OF h1, THEN conjunct1]
  note outside = pin_resolves_to_cumulative_range[OF example_counts, of _ 5 "examplePin 1 5"
      exampleEnv None exampleStart exampleBatch "[]" "[]" "{}", THEN conjunct2, THEN mp, OF h2]
  from inside have a: "extractBatchMessagePin exampleManifest 2 = (3, Some \<lparr>mme_ID = ''M7'', mme_Topics = 1\<rparr>, 2)"
    by (simp only: pb)
  from outside[THEN conjunct1] have b: "extractBatchMessagePin exampleManifest 5 = (3, None, 0)"
    by (simp only: pb)
  from outside[THEN conjunct2, THEN mp, OF h3]
  have c: "pinsLoop exampleEnv [examplePin 1 5] None {} exampleStart = (None, exampleStart)"
    by (simp add: w)
  have h2': "pinBase (bm_Messages exampleManifest) (length (bm_Messages exampleManifest)) \<le> 5"
    by (simp add: pinBase_def exampleManifest_def)
  have nn: "list_all (\<lambda>e. 0 \<le> mme_Topics e) (bm_Messages exampleManifest)"
    using example_counts by (simp only: list_all_iff)
  show ?thesis using nn h1 h2' a b bop c by blast
qed

subsection \<open>The on-chain consistency check\<close>

lemma attemptMessageDispatch_check:
  assumes "attemptMessageDispatch env msg data tx pin s = (Inr (newState, True), s')"
  shows "\<exists>w1. checkOnchainConsistency env msg pin (world s) = (Inr True, w1)"
  using assms
  by (auto simp: attemptMessageDispatch_def Let_def
      split: prod.splits sum.splits bool.splits option.splits if_splits)

lemma attemptMessageDispatch_not_valid:
  assumes "checkOnchainConsistency env msg pin (world s) = (Inr False, w1)"
  shows "fst (attemptMessageDispatch env msg data tx pin s) = Inr (MessageStateUnset, False)"
  using assms by (simp add: attemptMessageDispatch_def Let_def)

text \<open>
  C9. A private message whose key is the signer of the pin and resolves to no registered
  identity passes the on-chain consistency check, whatever its author; with a key that
  resolves to no identity the check fails exactly for the messages that are neither
  private nor identity-claim definitions.
\<close>

theorem private_unresolved_key_passes:
  assumes key: "msg_Key msg \<noteq> []" "msg_Key msg = pin_Signer pin"
    and unresolved: "FindIdentityForVerifier env (msg_Namespace msg)
                       \<lparr>vr_Type = verifierType env, vr_Value = pin_Signer pin\<rparr> w = (Inr None, w1)"
  shows "(msg_Type msg = MessageTypePrivate \<longrightarrow>
            checkOnchainConsistency env (msg\<lparr>msg_Author := author\<rparr>) pin w = (Inr True, w1))
       \<and> (checkOnchainConsistency env msg pin w = (Inr False, w1)) =
            (msg_Type msg \<noteq> MessageTypePrivate \<and>
             \<not> (msg_Type msg = MessageTypeDefinition \<and>
                (msg_Tag msg = SystemTagIdentityClaim \<or>
                 msg_Tag msg = DeprecatedSystemTagDefineNode \<or>
                 msg_Tag msg = DeprecatedSystemTagDefineOrganization)))"
  using key unresolved by (auto simp: checkOnchainConsistency_def)

theorem private_unresolved_key_passes_witness:
  "msg_Key examplePrivate \<noteq> [] \<and> msg_Key examplePrivate = pin_Signer (examplePin 1 0) \<and>
   FindIdentityForVerifier unregisteredEnv (msg_Namespace examplePrivate)
     \<lparr>vr_Type = verifierType unregisteredEnv, vr_Value = pin_Signer (examplePin 1 0)\<rparr> [] = (Inr None, []) \<and>
   msg_Type examplePrivate = MessageTypePrivate \<and>
   checkOnchainConsistency unregisteredEnv (examplePrivate\<lparr>msg_Author := ''did:nobody''\<rparr>)
     (examplePin 1 0) [] = (Inr True, []) \<and>
   checkOnchainConsistency unregisteredEnv examplePrivate (examplePin 1 0) [] \<noteq> (Inr False, [])"
proof -
  have k1: "msg_Key examplePrivate \<noteq> []"
    and k2: "msg_Key examplePrivate = pin_Signer (examplePin 1 0)"
    and ty: "msg_Type examplePrivate = MessageTypePrivate"
    by (simp_all add: examplePrivate_def exampleMessage_def examplePin_def)
  have un: "FindIdentityForVerifier unregisteredEnv (msg_Namespace examplePrivate)
     \<lparr>vr_Type = verifierType unregisteredEnv, vr_Value = pin_Signer (examplePin 1 0)\<rparr> [] = (Inr None, [])"
    by (simp add: unregisteredEnv_def)
  note th = private_unresolved_key_passes[OF k1 k2 un, of "''did:nobody''"]
  from th[THEN conjunct1] ty
  have a: "checkOnchainConsistency unregisteredEnv (examplePrivate\<lparr>msg_Author := ''did:nobody''\<rparr>)
     (examplePin 1 0) [] = (Inr True, [])" by blast
  from th[THEN conjunct2] ty
  have b: "checkOnchainConsistency unregisteredEnv examplePrivate (examplePin 1 0) [] \<noteq> (Inr False, [])"
    by simp
  show ?thesis using k1 k2 un ty a b by blast
qed

text \<open>
  C2, as the code has it. A message is dispatched only if the signer of the pin is the
  non-empty key of the message and either the key resolves to a registered identity whose
  DID is the non-empty author of the message, or the key resolves to no identity and the
  message is an identity-claim definition or a private message. With a key that resolves
  to no identity, a message that is neither is not dispatched.
\<close>

theorem dispatch_requires_onchain_consistency:
  assumes found: "FindIdentityForVerifier env (msg_Namespace msg)
                    \<lparr>vr_Type = verifierType env, vr_Value = pin_Signer pin\<rparr> (world s) = (resolved, w1)"
  shows "(attemptMessageDispatch env msg data tx pin s = (Inr (newState, True), s') \<longrightarrow>
            msg_Key msg \<noteq> [] \<and> msg_Key msg = pin_Signer pin \<and>
            (case resolved of
               Inl err \<Rightarrow> False
             | Inr (Some resolvedAuthor) \<Rightarrow>
                 msg_Author msg \<noteq> [] \<and> id_DID resolvedAuthor = msg_Author msg
             | Inr None \<Rightarrow>
                 (msg_Type msg = MessageTypeDefinition \<and>
                    (msg_Tag msg = SystemTagIdentityClaim \<or>
                     msg_Tag msg = DeprecatedSystemTagDefineNode \<or>
                     msg_Tag msg = DeprecatedSystemTagDefineOrganization)) \<or>
                 msg_Type msg = MessageTypePrivate))
       \<and> (msg_Key msg \<noteq> [] \<and> msg_Key msg = pin_Signer pin \<and> resolved = Inr None \<and>
          msg_Type msg \<noteq> MessageTypePrivate \<and>
          \<not> (msg_Type msg = MessageTypeDefinition \<and>
               (msg_Tag msg = SystemTagIdentityClaim \<or>
                msg_Tag msg = DeprecatedSystemTagDefineNode \<or>
                msg_Tag msg = DeprecatedSystemTagDefineOrganization)) \<longrightarrow>
            fst (attemptMessageDispatch env msg data tx pin s) = Inr (MessageStateUnset, False))"
proof (intro conjI impI)
  assume "attemptMessageDispatch env msg data tx pin s = (Inr (newState, True), s')"
  then obtain w2 where "checkOnchainConsistency env msg pin (world s) = (Inr True, w2)"
    using attemptMessageDispatch_check by blast
  with found show "msg_Key msg \<noteq> []" "msg_Key msg = pin_Signer pin"
    "(case resolved of
               Inl err \<Rightarrow> False
             | Inr (Some resolvedAuthor) \<Rightarrow>
                 msg_Author msg \<noteq> [] \<and> id_DID resolvedAuthor = msg_Author msg
             | Inr None \<Rightarrow>
                 (msg_Type msg = MessageTypeDefinition \<and>
                    (msg_Tag msg = SystemTagIdentityClaim \<or>
                     msg_Tag msg = DeprecatedSystemTagDefineNode \<or>
                     msg_Tag msg = DeprecatedSystemTagDefineOrganization)) \<or>
                 msg_Type msg = MessageTypePrivate)"
    by (auto simp: checkOnchainConsistency_def split: sum.splits option.splits if_splits)
next
  assume a: "msg_Key msg \<noteq> [] \<and> msg_Key msg = pin_Signer pin \<and> resolved = Inr None \<and>
          msg_Type msg \<noteq> MessageTypePrivate \<and>
          \<not> (msg_Type msg = MessageTypeDefinition \<and>
               (msg_Tag msg = SystemTagIdentityClaim \<or>
                msg_Tag msg = DeprecatedSystemTagDefineNode \<or>
                msg_Tag msg = DeprecatedSystemTagDefineOrganization))"
  with found have "checkOnchainConsistency env msg pin (world s) = (Inr False, w1)"
    by (auto simp: checkOnchainConsistency_def)
  then show "fst (attemptMessageDispatch env msg data tx pin s) = Inr (MessageStateUnset, False)"
    by (rule attemptMessageDispatch_not_valid)
qed

lemma example_private_dispatch:
  "fst (attemptMessageDispatch unregisteredEnv examplePrivate [] (Some ''TX6'') (examplePin 1 0) exampleStart)
     = Inr (MessageStateConfirmed, True)"
  by (simp add: attemptMessageDispatch_def checkOnchainConsistency_def transferCheck_def
      validateMessage_def unregisteredEnv_def exampleEnv_def examplePrivate_def exampleMessage_def
      examplePin_def exampleStart_def Let_def)


lemma example_broadcast_dispatch:
  "fst (attemptMessageDispatch exampleEnv (exampleMessage ''M6'') [] (Some ''TX6'') (examplePin 1 0) exampleStart)
     = Inr (MessageStateConfirmed, True)"
  by (simp add: attemptMessageDispatch_def checkOnchainConsistency_def transferCheck_def
      validateMessage_def exampleEnv_def exampleMessage_def exampleOrg_def
      examplePin_def exampleStart_def Let_def)

theorem dispatch_requires_onchain_consistency_witness:
  "fst (attemptMessageDispatch exampleEnv (exampleMessage ''M6'') [] (Some ''TX6'') (examplePin 1 0) exampleStart)
     = Inr (MessageStateConfirmed, True) \<and>
   FindIdentityForVerifier exampleEnv (msg_Namespace (exampleMessage ''M6''))
     \<lparr>vr_Type = verifierType exampleEnv, vr_Value = pin_Signer (examplePin 1 0)\<rparr> (world exampleStart)
     = (Inr (Some exampleOrg), []) \<and>
   msg_Key (exampleMessage ''M6'') = pin_Signer (examplePin 1 0) \<and>
   id_DID exampleOrg = msg_Author (exampleMessage ''M6'') \<and>
   FindIdentityForVerifier unregisteredEnv (msg_Namespace (exampleMessage ''M6''))
     \<lparr>vr_Type = verifierType unregisteredEnv, vr_Value = pin_Signer (examplePin 1 0)\<rparr> (world exampleStart)
     = (Inr None, []) \<and>
   msg_Type (exampleMessage ''M6'') = MessageTypeBroadcast \<and>
   fst (attemptMessageDispatch unregisteredEnv (exampleMessage ''M6'') [] (Some ''TX6'') (examplePin 1 0) exampleStart)
     = Inr (MessageStateUnset, False)"
proof -
  let ?m = "exampleMessage ''M6''" and ?p = "examplePin 1 0"
  have f1: "FindIdentityForVerifier exampleEnv (msg_Namespace ?m)
     \<lparr>vr_Type = verifierType exampleEnv, vr_Value = pin_Signer ?p\<rparr> (world exampleStart)
     = (Inr (Some exampleOrg), [])"
    by (simp add: exampleEnv_def exampleStart_def)
  have f2: "FindIdentityForVerifier unregisteredEnv (msg_Namespace ?m)
     \<lparr>vr_Type = verifierType unregisteredEnv, vr_Value = pin_Signer ?p\<rparr> (world exampleStart)
     = (Inr None, [])"
    by (simp add: unregisteredEnv_def exampleStart_def)
  have d: "attemptMessageDispatch exampleEnv ?m [] (Some ''TX6'') ?p exampleStart =
      (Inr (MessageStateConfirmed, True),
       snd (attemptMessageDispatch exampleEnv ?m [] (Some ''TX6'') ?p exampleStart))"
    using example_broadcast_dispatch by (metis prod.collapse)
  have pre: "msg_Key ?m \<noteq> [] \<and> msg_Key ?m = pin_Signer ?p \<and> Inr None = (Inr None :: error + Identity option) \<and>
          msg_Type ?m \<noteq> MessageTypePrivate \<and>
          \<not> (msg_Type ?m = MessageTypeDefinition \<and>
               (msg_Tag ?m = SystemTagIdentityClaim \<or>
                msg_Tag ?m = DeprecatedSystemTagDefineNode \<or>
                msg_Tag ?m = DeprecatedSystemTagDefineOrganization))"
    by (simp add: exampleMessage_def examplePin_def)
  have ty: "msg_Type ?m = MessageTypeBroadcast" by (simp add: exampleMessage_def)
  from dispatch_requires_onchain_consistency[OF f1, THEN conjunct1, THEN mp, OF d]
  have a: "msg_Key ?m = pin_Signer ?p" and b: "id_DID exampleOrg = msg_Author ?m"
    by simp_all
  from dispatch_requires_onchain_consistency[OF f2, THEN conjunct2, THEN mp, OF pre]
  have c: "fst (attemptMessageDispatch unregisteredEnv ?m [] (Some ''TX6'') ?p exampleStart)
     = Inr (MessageStateUnset, False)" .
  show ?thesis using example_broadcast_dispatch f1 f2 a b c ty by blast
qed

text \<open>
  C2 as stated fails: on the network with no identity registered, the private message is
  dispatched although its key resolves to no identity and it is not a definition message.
\<close>

theorem unregistered_private_key_dispatched:
  "fst (attemptMessageDispatch unregisteredEnv examplePrivate [] (Some ''TX6'') (examplePin 1 0) exampleStart)
     = Inr (MessageStateConfirmed, True) \<and>
   fst (FindIdentityForVerifier unregisteredEnv (msg_Namespace examplePrivate)
     \<lparr>vr_Type = verifierType unregisteredEnv, vr_Value = pin_Signer (examplePin 1 0)\<rparr> (world exampleStart))
     = Inr None \<and>
   msg_Type examplePrivate = MessageTypePrivate"
  using example_private_dispatch
  by (simp add: unregisteredEnv_def examplePrivate_def)

subsection \<open>Manifest extraction\<close>

lemma extractManifest_Some_iff:
  "(extractManifest env batch = Some manifest) =
     ((UnmarshalManifest env (bp_Manifest batch) = Inr manifest \<and>
       bm_Version manifest = ManifestVersion1) \<or>
      (\<exists>parsed fullPayload.
         UnmarshalManifest env (bp_Manifest batch) = Inr parsed \<and>
         bm_Version parsed = ManifestVersionUnset \<and>
         UnmarshalPayload env (bp_Manifest batch) = Inr fullPayload \<and>
         pl_Messages fullPayload \<noteq> [] \<and>
         manifest = GenManifest batch (pl_Messages fullPayload) (pl_Data fullPayload)))"
  by (auto simp: extractManifest_def migrateManifest_def ManifestVersionUnset_def
      ManifestVersion1_def split: sum.splits)

lemma GetBatchForPin_parked:
  assumes "extractManifest env batch = None"
    and "cacheGet env (getBatchCacheKey (pin_Batch pin) (pin_BatchHash pin)) w = (None, w1)"
    and "GetBatchByID env (pin_Batch pin) w1 = (Inr (Some batch), w2)"
  shows "GetBatchForPin env pin w = (Inr None, w2)"
  using assms by (simp add: GetBatchForPin_def Let_def)

text \<open>
  C7. A manifest is extracted from a persisted batch in exactly two cases: the stored
  manifest parses with version 1, and is returned as parsed; or it parses with no
  version, the stored text parses as a full payload with at least one message, and the
  result is the manifest generated from the messages and data of that payload. In every
  other case (another version, text that does not parse, a legacy payload that does not
  parse or has no message) no manifest is extracted, \<open>GetBatchForPin\<close> returns no batch
  and the page goes on with the next pin.
\<close>

theorem extractManifest_two_forms:
  "((extractManifest env batch = Some manifest) =
     ((UnmarshalManifest env (bp_Manifest batch) = Inr manifest \<and>
       bm_Version manifest = ManifestVersion1) \<or>
      (\<exists>parsed fullPayload.
         UnmarshalManifest env (bp_Manifest batch) = Inr parsed \<and>
         bm_Version parsed = ManifestVersionUnset \<and>
         UnmarshalPayload env (bp_Manifest batch) = Inr fullPayload \<and>
         pl_Messages fullPayload \<noteq> [] \<and>
         manifest = GenManifest batch (pl_Messages fullPayload) (pl_Data fullPayload))))
   \<and> (extractManifest env batch = None \<and>
      cacheGet env (getBatchCacheKey (pin_Batch pin) (pin_BatchHash pin)) (world s) = (None, w1) \<and>
      GetBatchByID env (pin_Batch pin) w1 = (Inr (Some batch), w2) \<longrightarrow>
        GetBatchForPin env pin (world s) = (Inr None, w2) \<and>
        pinsLoop env (pin # pins) None dupMsgCheck s =
          pinsLoop env pins None dupMsgCheck (s\<lparr>world := w2\<rparr>))"
proof (intro conjI impI)
  show "(extractManifest env batch = Some manifest) =
     ((UnmarshalManifest env (bp_Manifest batch) = Inr manifest \<and>
       bm_Version manifest = ManifestVersion1) \<or>
      (\<exists>parsed fullPayload.
         UnmarshalManifest env (bp_Manifest batch) = Inr parsed \<and>
         bm_Version parsed = ManifestVersionUnset \<and>
         UnmarshalPayload env (bp_Manifest batch) = Inr fullPayload \<and>
         pl_Messages fullPayload \<noteq> [] \<and>
         manifest = GenManifest batch (pl_Messages fullPayload) (pl_Data fullPayload)))"
    by (rule extractManifest_Some_iff)
next
  assume a: "extractManifest env batch = None \<and>
      cacheGet env (getBatchCacheKey (pin_Batch pin) (pin_BatchHash pin)) (world s) = (None, w1) \<and>
      GetBatchByID env (pin_Batch pin) w1 = (Inr (Some batch), w2)"
  then show g: "GetBatchForPin env pin (world s) = (Inr None, w2)"
    using GetBatchForPin_parked[of env batch pin "world s" w1 w2] by simp
  then show "pinsLoop env (pin # pins) None dupMsgCheck s =
          pinsLoop env pins None dupMsgCheck (s\<lparr>world := w2\<rparr>)"
    by (simp add: batchOfPin_def)
qed

theorem extractManifest_two_forms_witness:
  "extractManifest legacyEnv legacyBatch =
     Some \<lparr>bm_Version = 1, bm_ID = Some ''B6'', bm_TX = Some ''TX6'',
           bm_Messages = [\<lparr>mme_ID = ''M6'', mme_Topics = 2\<rparr>], bm_Data = []\<rparr> \<and>
   extractManifest legacyEnv exampleBatch = Some exampleManifest \<and>
   extractManifest legacyEnv (exampleBatch\<lparr>bp_Manifest := ''v2''\<rparr>) = None \<and>
   cacheGet legacyEnv (getBatchCacheKey (pin_Batch (examplePin 1 0)) (pin_BatchHash (examplePin 1 0)))
     (world exampleStart) = (None, []) \<and>
   GetBatchByID legacyEnv (pin_Batch (examplePin 1 0)) [] =
     (Inr (Some (exampleBatch\<lparr>bp_Manifest := ''v2''\<rparr>)), []) \<and>
   GetBatchForPin legacyEnv (examplePin 1 0) (world exampleStart) = (Inr None, []) \<and>
   pinsLoop legacyEnv [examplePin 1 0] None {} exampleStart = (None, exampleStart)"
proof -
  let ?gen = "\<lparr>bm_Version = 1, bm_ID = Some ''B6'', bm_TX = Some ''TX6'',
           bm_Messages = [\<lparr>mme_ID = ''M6'', mme_Topics = 2\<rparr>], bm_Data = []\<rparr>"
  have gen: "?gen = GenManifest legacyBatch [exampleMessage ''M6''] []"
    by (simp add: GenManifest_def legacyBatch_def exampleBatch_def exampleMessage_def
        ManifestVersion1_def)
  have legacy: "\<exists>parsed fullPayload.
         UnmarshalManifest legacyEnv (bp_Manifest legacyBatch) = Inr parsed \<and>
         bm_Version parsed = ManifestVersionUnset \<and>
         UnmarshalPayload legacyEnv (bp_Manifest legacyBatch) = Inr fullPayload \<and>
         pl_Messages fullPayload \<noteq> [] \<and>
         ?gen = GenManifest legacyBatch (pl_Messages fullPayload) (pl_Data fullPayload)"
    by (rule exI[of _ "exampleManifest\<lparr>bm_Version := 0, bm_Messages := []\<rparr>"],
        rule exI[of _ "\<lparr>pl_Messages = [exampleMessage ''M6''], pl_Data = []\<rparr>"])
       (simp add: legacyEnv_def legacyBatch_def exampleEnv_def exampleBatch_def
          ManifestVersionUnset_def GenManifest_def exampleMessage_def ManifestVersion1_def)
  have v1: "UnmarshalManifest legacyEnv (bp_Manifest exampleBatch) = Inr exampleManifest \<and>
       bm_Version exampleManifest = ManifestVersion1"
    by (simp add: legacyEnv_def exampleEnv_def exampleBatch_def exampleManifest_def
        ManifestVersion1_def)
  have a: "extractManifest legacyEnv legacyBatch = Some ?gen"
    using extractManifest_two_forms[THEN conjunct1, of legacyEnv legacyBatch ?gen] legacy
    by blast
  have b: "extractManifest legacyEnv exampleBatch = Some exampleManifest"
    using extractManifest_two_forms[THEN conjunct1, of legacyEnv exampleBatch exampleManifest] v1
    by blast
  have c: "extractManifest legacyEnv (exampleBatch\<lparr>bp_Manifest := ''v2''\<rparr>) = None"
    by (simp add: extractManifest_def legacyEnv_def exampleEnv_def exampleBatch_def
        exampleManifest_def ManifestVersionUnset_def ManifestVersion1_def)
  have d: "cacheGet legacyEnv (getBatchCacheKey (pin_Batch (examplePin 1 0)) (pin_BatchHash (examplePin 1 0)))
     (world exampleStart) = (None, [])"
    by (simp add: legacyEnv_def exampleEnv_def exampleStart_def)
  have e: "GetBatchByID legacyEnv (pin_Batch (examplePin 1 0)) [] =
     (Inr (Some (exampleBatch\<lparr>bp_Manifest := ''v2''\<rparr>)), [])"
    by (simp add: legacyEnv_def exampleEnv_def examplePin_def)
  have w: "exampleStart\<lparr>world := []\<rparr> = exampleStart" by (simp add: exampleStart_def)
  from extractManifest_two_forms[THEN conjunct2, THEN mp, OF conjI[OF c conjI[OF d e]],
      of "[]" "{}"]
  have f: "GetBatchForPin legacyEnv (examplePin 1 0) (world exampleStart) = (Inr None, [])"
    and g: "pinsLoop legacyEnv [examplePin 1 0] None {} exampleStart = (None, exampleStart)"
    by (simp_all add: w)
  show ?thesis using a b c d e f g by blast
qed

subsection \<open>What a page adds to the trace\<close>










subsection \<open>A page of pins\<close>


lemma example_extract_out:
  "3 \<le> i \<Longrightarrow> extractBatchMessagePin exampleManifest i = (3, None, 0)"
  by (auto simp: extractBatchMessagePin_def exampleManifest_def topicsLoop_eq)




lemma example_held:
  "batchOfPin exampleEnv (examplePin q i) (Some (exampleBatch, exampleManifest)) w =
     (Inr (Some (exampleBatch, exampleManifest)), w)"
  by (simp add: batchOfPin_def exampleBatch_def examplePin_def)

lemma example_fetch:
  "batchOfPin exampleEnv (examplePin q i) None w = (Inr (Some (exampleBatch, exampleManifest)), w)"
  by (simp add: batchOfPin_def GetBatchForPin_def getBatchCacheKey_def exampleEnv_def examplePin_def
      exampleBatch_def extractManifest_def exampleManifest_def ManifestVersionUnset_def
      ManifestVersion1_def)


lemma example_skipped_page:
  "processPins exampleEnv [examplePin 1 5, examplePin 2 7] exampleStart =
     (None, exampleStart\<lparr>pollingOffset := Some 2\<rparr>)"
proof -
  have w: "world exampleStart = []" "exampleStart\<lparr>world := []\<rparr> = exampleStart"
    by (simp_all add: exampleStart_def)
  have idx: "pin_Index (examplePin q i) = i" "pin_Sequence (examplePin q i) = q" for q i
    by (simp_all add: examplePin_def)
  have loop: "pinsLoop exampleEnv [examplePin 1 5, examplePin 2 7] None {} exampleStart =
      (None, exampleStart)"
    by (simp add: w idx example_fetch example_held example_extract_out)
  show ?thesis
    unfolding processPins_def loop by (simp add: commitOffset_def idx)
qed

text \<open>
  C10. On the empty page \<open>processPins\<close> fails with the index out of range; on any other
  page, when it returns no error, the offset of the poller is the sequence of the last
  pin of the page, whatever happened to the pins.
\<close>

theorem processPins_commits_last_sequence:
  "processPins env [] s = (Some PanicIndexOutOfRange, s) \<and>
   (pins \<noteq> [] \<and> processPins env pins s = (None, s') \<longrightarrow>
      pollingOffset s' = Some (pin_Sequence (last pins)))"
  by (auto simp: processPins_def commitOffset_def split: prod.splits option.splits list.splits)

theorem processPins_commits_last_sequence_witness:
  "[examplePin 1 5, examplePin 2 7] \<noteq> [] \<and>
   extractBatchMessagePin exampleManifest 5 = (3, None, 0) \<and>
   extractBatchMessagePin exampleManifest 7 = (3, None, 0) \<and>
   processPins exampleEnv [examplePin 1 5, examplePin 2 7] exampleStart =
     (None, exampleStart\<lparr>pollingOffset := Some 2\<rparr>) \<and>
   pollingOffset (exampleStart\<lparr>pollingOffset := Some 2\<rparr>) = Some 2 \<and>
   trace (exampleStart\<lparr>pollingOffset := Some 2\<rparr>) = [] \<and>
   processPins exampleEnv [] exampleStart = (Some PanicIndexOutOfRange, exampleStart)"
proof -
  have ne: "[examplePin 1 5, examplePin 2 7] \<noteq> []" by simp
  from processPins_commits_last_sequence[THEN conjunct2, THEN mp, OF conjI[OF ne example_skipped_page]]
  have a: "pollingOffset (exampleStart\<lparr>pollingOffset := Some 2\<rparr>) = Some 2"
    by (simp add: examplePin_def)
  have b: "processPins exampleEnv [] exampleStart = (Some PanicIndexOutOfRange, exampleStart)"
    by (rule processPins_commits_last_sequence[THEN conjunct1])
  have c: "trace (exampleStart\<lparr>pollingOffset := Some 2\<rparr>) = []" by (simp add: exampleStart_def)
  show ?thesis
    using ne a b c example_skipped_page example_extract_out[of 5] example_extract_out[of 7]
    by simp
qed




subsection \<open>The two phases of a page\<close>

lemma runClosures_steps:
  "runClosures mk i cbs s = (r, s') \<Longrightarrow>
   \<exists>k \<le> length cbs.
     trace s' = trace s @ map mk [i..<i + k] \<and>
     (r = None \<longrightarrow> k = length cbs) \<and> (r \<noteq> None \<longrightarrow> 0 < k) \<and>
     PreFinalize s' = PreFinalize s \<and> Finalize s' = Finalize s"
proof (induction cbs arbitrary: i s)
  case Nil
  then show ?case by auto
next
  case (Cons cb cbs)
  obtain e w1 where c: "cb (world s) = (e, w1)" by (cases "cb (world s)")
  show ?case
  proof (cases e)
    case (Some err)
    with Cons.prems c have "r = Some err" "s' = s\<lparr>world := w1, trace := trace s @ [mk i]\<rparr>"
      by auto
    then have "trace s' = trace s @ map mk [i..<i + 1] \<and>
     (r = None \<longrightarrow> 1 = length (cb # cbs)) \<and> (r \<noteq> None \<longrightarrow> 0 < (1::nat)) \<and>
     PreFinalize s' = PreFinalize s \<and> Finalize s' = Finalize s"
      by simp
    then show ?thesis by (intro exI[of _ 1]) simp
  next
    case None
    with Cons.prems c
    have "runClosures mk (Suc i) cbs (s\<lparr>world := w1, trace := trace s @ [mk i]\<rparr>) = (r, s')"
      by simp
    from Cons.IH[OF this] obtain k where k: "k \<le> length cbs"
      "trace s' = (trace s @ [mk i]) @ map mk [Suc i..<Suc i + k]"
      "r = None \<longrightarrow> k = length cbs"
      "PreFinalize s' = PreFinalize s" "Finalize s' = Finalize s"
      by auto
    have "[i..<i + Suc k] = i # [Suc i..<Suc i + k]"
      by (simp add: upt_rec)
    with k have "Suc k \<le> length (cb # cbs) \<and> trace s' = trace s @ map mk [i..<i + Suc k] \<and>
     (r = None \<longrightarrow> Suc k = length (cb # cbs)) \<and> (r \<noteq> None \<longrightarrow> 0 < Suc k) \<and>
     PreFinalize s' = PreFinalize s \<and> Finalize s' = Finalize s"
      by simp
    then show ?thesis by blast
  qed
qed

lemma RunFinalize_steps:
  assumes "RunFinalize s = (r, s')"
  shows "\<exists>k \<le> length (Finalize s).
     trace s' = trace s @ map FinalizeStep [0..<k] \<and>
     (r = None \<longrightarrow> k = length (Finalize s)) \<and> (r \<noteq> None \<longrightarrow> 0 < k)"
  using runClosures_steps[OF assms[unfolded RunFinalize_def]] by auto

lemma RunPreFinalize_steps:
  assumes "RunPreFinalize s = (r, s')"
  shows "\<exists>k \<le> length (PreFinalize s).
     trace s' = trace s @ map PreFinalizeStep [0..<k] \<and>
     (r = None \<longrightarrow> k = length (PreFinalize s)) \<and> (r \<noteq> None \<longrightarrow> 0 < k) \<and>
     PreFinalize s' = PreFinalize s \<and> Finalize s' = Finalize s"
  using runClosures_steps[OF assms[unfolded RunPreFinalize_def]] by auto

lemma RunAsGroup_RunFinalize:
  assumes "RunAsGroup env RunFinalize s = (r, s')"
  shows "\<exists>k \<le> length (Finalize s). \<exists>closing.
     trace s' = trace s @ [GroupBegin] @ map FinalizeStep [0..<k] @ [closing] \<and>
     (r = None \<and> closing = GroupCommit \<and> k = length (Finalize s) \<or>
      r \<noteq> None \<and> closing = GroupRollback \<and> 0 < k)"
proof -
  obtain r1 s1 where f: "RunFinalize (s\<lparr>trace := trace s @ [GroupBegin]\<rparr>) = (r1, s1)"
    by (cases "RunFinalize (s\<lparr>trace := trace s @ [GroupBegin]\<rparr>)")
  from RunFinalize_steps[OF f] obtain k where k: "k \<le> length (Finalize s)"
    "trace s1 = trace s @ [GroupBegin] @ map FinalizeStep [0..<k]"
    "r1 = None \<longrightarrow> k = length (Finalize s)" "r1 \<noteq> None \<longrightarrow> 0 < k"
    by auto
  from assms f have "r = r1"
    "trace s' = trace s1 @ [if r1 = None then GroupCommit else GroupRollback]"
    by (auto simp: RunAsGroup_def split: option.splits)
  with k show ?thesis
    by (intro exI[of _ k]) auto
qed


lemma processWithBatchState_callback_failed:
  assumes "callback ((newBatchState s0)\<lparr>trace := trace s0 @ [GroupBegin]\<rparr>) = (Some err, s1)"
  shows "processWithBatchState env callback s0 =
           (Some err, s1\<lparr>world := groupEnd env False (world s0) (world s1),
                         trace := trace s1 @ [GroupRollback]\<rparr>)"
  using assms
  by (simp add: processWithBatchState_def RunAsGroup_def Let_def newBatchState_def)

lemma processWithBatchState_single_group:
  assumes cb: "callback ((newBatchState s0)\<lparr>trace := trace s0 @ [GroupBegin]\<rparr>) = (None, s1)"
    and run: "processWithBatchState env callback s0 = (r, s')"
    and nopre: "PreFinalize s1 = []"
  shows "\<exists>k \<le> length (Finalize s1). \<exists>closing.
           trace s' = trace s1 @ map FinalizeStep [0..<k] @ [closing] \<and>
           (r = None \<and> closing = GroupCommit \<and> k = length (Finalize s1) \<or>
            r \<noteq> None \<and> closing = GroupRollback \<and> 0 < k)"
proof -
  obtain r1 s2 where f: "RunFinalize s1 = (r1, s2)" by (cases "RunFinalize s1")
  from RunFinalize_steps[OF f] obtain k where k: "k \<le> length (Finalize s1)"
    "trace s2 = trace s1 @ map FinalizeStep [0..<k]"
    "r1 = None \<longrightarrow> k = length (Finalize s1)" "r1 \<noteq> None \<longrightarrow> 0 < k"
    by auto
  from runClosures_steps[OF f[unfolded RunFinalize_def]] nopre
  have pre2: "PreFinalize s2 = []" by auto
  from run cb f nopre pre2 have "r = r1"
    "trace s' = trace s2 @ [if r1 = None then GroupCommit else GroupRollback]"
    by (auto simp: processWithBatchState_def RunAsGroup_def Let_def newBatchState_def
        split: option.splits)
  with k show ?thesis
    by (intro exI[of _ k]) auto
qed

lemma processWithBatchState_two_groups:
  assumes cb: "callback ((newBatchState s0)\<lparr>trace := trace s0 @ [GroupBegin]\<rparr>) = (None, s1)"
    and run: "processWithBatchState env callback s0 = (r, s')"
    and pre: "PreFinalize s1 \<noteq> []"
  defines "s2 \<equiv> s1\<lparr>world := groupEnd env True (world s0) (world s1),
                     trace := trace s1 @ [GroupCommit]\<rparr>"
  shows "(r \<noteq> None \<and> (r, s') = RunPreFinalize s2 \<and>
          (\<exists>j \<le> length (PreFinalize s1). 0 < j \<and>
             trace s' = trace s1 @ [GroupCommit] @ map PreFinalizeStep [0..<j]))
       \<or> (fst (RunPreFinalize s2) = None \<and>
          (\<exists>k \<le> length (Finalize s1). \<exists>closing.
             trace s' = trace s1 @ [GroupCommit] @
               map PreFinalizeStep [0..<length (PreFinalize s1)] @ [GroupBegin] @
               map FinalizeStep [0..<k] @ [closing] \<and>
             (r = None \<and> closing = GroupCommit \<and> k = length (Finalize s1) \<or>
              r \<noteq> None \<and> closing = GroupRollback \<and> 0 < k)))"
proof -
  obtain r3 s3 where p: "RunPreFinalize s2 = (r3, s3)" by (cases "RunPreFinalize s2")
  have s2f: "PreFinalize s2 = PreFinalize s1" "Finalize s2 = Finalize s1"
    "trace s2 = trace s1 @ [GroupCommit]"
    by (simp_all add: s2_def)
  from RunPreFinalize_steps[OF p] s2f obtain j where j: "j \<le> length (PreFinalize s1)"
    "trace s3 = trace s1 @ [GroupCommit] @ map PreFinalizeStep [0..<j]"
    "r3 = None \<longrightarrow> j = length (PreFinalize s1)" "r3 \<noteq> None \<longrightarrow> 0 < j"
    "Finalize s3 = Finalize s1"
    by auto
  from run cb pre
  have step: "(r, s') = (case RunPreFinalize s2 of
                  (Some err, s3) \<Rightarrow> (Some err, s3)
                | (None, s3) \<Rightarrow> RunAsGroup env RunFinalize s3)"
    by (simp add: processWithBatchState_def RunAsGroup_def Let_def s2_def newBatchState_def)
  show ?thesis
  proof (cases r3)
    case (Some err)
    with step p have "(r, s') = RunPreFinalize s2" "r \<noteq> None" "s' = s3" by auto
    with j Some show ?thesis by auto
  next
    case None
    with step p have g: "RunAsGroup env RunFinalize s3 = (r, s')" by simp
    from RunAsGroup_RunFinalize[OF g] j None obtain k closing where
      "k \<le> length (Finalize s1)"
      "trace s' = trace s1 @ [GroupCommit] @
               map PreFinalizeStep [0..<length (PreFinalize s1)] @ [GroupBegin] @
               map FinalizeStep [0..<k] @ [closing]"
      "r = None \<and> closing = GroupCommit \<and> k = length (Finalize s1) \<or>
              r \<noteq> None \<and> closing = GroupRollback \<and> 0 < k"
      by auto
    moreover have "fst (RunPreFinalize s2) = None" using p None by simp
    ultimately show ?thesis by blast
  qed
qed

text \<open>
  C3. Let \<open>s1\<close> be the state the callback leaves, run on a fresh batch state inside the
  first group. If the callback fails the group is rolled back and no closure runs.
  If it registered no pre-finalize closure, the finalize closures run in order inside
  that same group, which is then committed, or rolled back when one of them fails.
  Otherwise the first group is committed with no finalize closure run; the pre-finalize
  closures then run in order outside any group; if one fails the page ends there and no
  finalize closure runs; if all succeed a second group is opened, the finalize closures
  run in order inside it, and it is committed or rolled back.
\<close>

theorem two_phase_finalize:
  "(callback ((newBatchState s0)\<lparr>trace := trace s0 @ [GroupBegin]\<rparr>) = (Some err, s1) \<longrightarrow>
      processWithBatchState env callback s0 =
        (Some err, s1\<lparr>world := groupEnd env False (world s0) (world s1),
                      trace := trace s1 @ [GroupRollback]\<rparr>))
   \<and> (callback ((newBatchState s0)\<lparr>trace := trace s0 @ [GroupBegin]\<rparr>) = (None, s1) \<and>
      processWithBatchState env callback s0 = (r, s') \<longrightarrow>
        (PreFinalize s1 = [] \<longrightarrow>
           (\<exists>k \<le> length (Finalize s1). \<exists>closing.
              trace s' = trace s1 @ map FinalizeStep [0..<k] @ [closing] \<and>
              (r = None \<and> closing = GroupCommit \<and> k = length (Finalize s1) \<or>
               r \<noteq> None \<and> closing = GroupRollback \<and> 0 < k)))
      \<and> (PreFinalize s1 \<noteq> [] \<longrightarrow>
           (r \<noteq> None \<and>
            (r, s') = RunPreFinalize (s1\<lparr>world := groupEnd env True (world s0) (world s1),
                                         trace := trace s1 @ [GroupCommit]\<rparr>) \<and>
            (\<exists>j \<le> length (PreFinalize s1). 0 < j \<and>
               trace s' = trace s1 @ [GroupCommit] @ map PreFinalizeStep [0..<j]))
         \<or> (fst (RunPreFinalize (s1\<lparr>world := groupEnd env True (world s0) (world s1),
                                      trace := trace s1 @ [GroupCommit]\<rparr>)) = None \<and>
            (\<exists>k \<le> length (Finalize s1). \<exists>closing.
               trace s' = trace s1 @ [GroupCommit] @
                 map PreFinalizeStep [0..<length (PreFinalize s1)] @ [GroupBegin] @
                 map FinalizeStep [0..<k] @ [closing] \<and>
               (r = None \<and> closing = GroupCommit \<and> k = length (Finalize s1) \<or>
                r \<noteq> None \<and> closing = GroupRollback \<and> 0 < k)))))"
  using processWithBatchState_callback_failed[of callback s0 err s1 env]
    processWithBatchState_single_group[of callback s0 s1 env r s']
    processWithBatchState_two_groups[of callback s0 s1 env r s']
  by blast


lemma exampleEvents_insert: "insertEvents exampleEnv exampleEvents [] = (None, exampleEvents)"
  by (simp add: exampleEvents_def messageEvents_def NewEvent_def exampleMessage_def exampleEnv_def)

lemma example_single_group:
  "fst (processWithBatchState exampleEnv registerFinalize exampleStart) = None \<and>
   trace (snd (processWithBatchState exampleEnv registerFinalize exampleStart)) =
     [GroupBegin, FinalizeStep 0, GroupCommit] \<and>
   world (snd (processWithBatchState exampleEnv registerFinalize exampleStart)) = exampleEvents"
  by (simp add: processWithBatchState_def RunAsGroup_def RunFinalize_def registerFinalize_def
      newBatchState_def exampleStart_def Let_def exampleEvents_insert
      exampleEnv_def[THEN arg_cong, of groupEnd])

lemma example_two_groups:
  "fst (processWithBatchState exampleEnv (registerBoth True) exampleStart) = None \<and>
   trace (snd (processWithBatchState exampleEnv (registerBoth True) exampleStart)) =
     [GroupBegin, GroupCommit, PreFinalizeStep 0, GroupBegin, FinalizeStep 0, GroupCommit] \<and>
   world (snd (processWithBatchState exampleEnv (registerBoth True) exampleStart)) = exampleEvents"
  by (simp add: processWithBatchState_def RunAsGroup_def RunFinalize_def RunPreFinalize_def
      registerBoth_def newBatchState_def exampleStart_def Let_def exampleEvents_insert
      exampleEnv_def[THEN arg_cong, of groupEnd])

lemma example_prefinalize_fails:
  "fst (processWithBatchState exampleEnv (registerBoth False) exampleStart) = Some (Err ''transfer failed'') \<and>
   trace (snd (processWithBatchState exampleEnv (registerBoth False) exampleStart)) =
     [GroupBegin, GroupCommit, PreFinalizeStep 0] \<and>
   world (snd (processWithBatchState exampleEnv (registerBoth False) exampleStart)) = []"
  by (simp add: processWithBatchState_def RunAsGroup_def RunFinalize_def RunPreFinalize_def
      registerBoth_def newBatchState_def exampleStart_def Let_def exampleEvents_insert
      exampleEnv_def[THEN arg_cong, of groupEnd])


theorem two_phase_finalize_witness:
  "processWithBatchState exampleEnv failingCallback exampleStart =
     (Some (Err ''database''), exampleStart\<lparr>trace := [GroupBegin, GroupRollback]\<rparr>) \<and>
   fst (processWithBatchState exampleEnv registerFinalize exampleStart) = None \<and>
   trace (snd (processWithBatchState exampleEnv registerFinalize exampleStart)) =
     [GroupBegin, FinalizeStep 0, GroupCommit] \<and>
   world (snd (processWithBatchState exampleEnv registerFinalize exampleStart)) = exampleEvents \<and>
   fst (processWithBatchState exampleEnv (registerBoth True) exampleStart) = None \<and>
   trace (snd (processWithBatchState exampleEnv (registerBoth True) exampleStart)) =
     [GroupBegin, GroupCommit, PreFinalizeStep 0, GroupBegin, FinalizeStep 0, GroupCommit] \<and>
   world (snd (processWithBatchState exampleEnv (registerBoth True) exampleStart)) = exampleEvents \<and>
   fst (processWithBatchState exampleEnv (registerBoth False) exampleStart) = Some (Err ''transfer failed'') \<and>
   trace (snd (processWithBatchState exampleEnv (registerBoth False) exampleStart)) =
     [GroupBegin, GroupCommit, PreFinalizeStep 0] \<and>
   world (snd (processWithBatchState exampleEnv (registerBoth False) exampleStart)) = []"
proof -
  let ?s = "(newBatchState exampleStart)\<lparr>trace := trace exampleStart @ [GroupBegin]\<rparr>"
  have cbf: "failingCallback ?s = (Some (Err ''database''), ?s)"
    by (simp add: failingCallback_def)
  from two_phase_finalize[where callback = failingCallback and ?s0.0 = exampleStart
      and env = exampleEnv and err = "Err ''database''" and ?s1.0 = "?s",
      THEN conjunct1, THEN mp, OF cbf]
  have a: "processWithBatchState exampleEnv failingCallback exampleStart =
     (Some (Err ''database''), exampleStart\<lparr>trace := [GroupBegin, GroupRollback]\<rparr>)"
    by (simp add: newBatchState_def exampleStart_def exampleEnv_def)
  let ?s1 = "?s\<lparr>Finalize := [insertEvents exampleEnv exampleEvents]\<rparr>"
  let ?run = "processWithBatchState exampleEnv registerFinalize exampleStart"
  have cb1: "registerFinalize ?s = (None, ?s1)"
    by (simp add: registerFinalize_def)
  have run1: "?run = (fst ?run, snd ?run)" by simp
  have s1: "PreFinalize ?s1 = []" "length (Finalize ?s1) = 1" "trace ?s1 = [GroupBegin]"
    by (simp_all add: newBatchState_def exampleStart_def)
  from two_phase_finalize[where callback = registerFinalize and ?s0.0 = exampleStart
      and env = exampleEnv and ?s1.0 = "?s1" and r = "fst ?run" and s' = "snd ?run",
      THEN conjunct2, THEN mp, OF conjI[OF cb1 run1], THEN conjunct1, THEN mp, OF s1(1)]
  obtain k closing where k: "k \<le> length (Finalize ?s1)"
    "trace (snd ?run) = trace ?s1 @ map FinalizeStep [0..<k] @ [closing]"
    "fst ?run = None \<and> closing = GroupCommit \<and> k = length (Finalize ?s1) \<or>
     fst ?run \<noteq> None \<and> closing = GroupRollback \<and> 0 < k"
    by blast
  from k(3) example_single_group have "closing = GroupCommit" "k = 1"
    unfolding s1(2) by auto
  with k(2) have b: "trace (snd ?run) = [GroupBegin, FinalizeStep 0, GroupCommit]"
    unfolding s1(3) by simp
  show ?thesis
    using a b example_single_group example_two_groups example_prefinalize_fails by blast
qed

subsection \<open>The rewind of the poller\<close>

lemma retryDo_first_success:
  assumes "\<forall>j<k. \<exists>e. f (a + j) st = ((True, Some e), st)"
    and "f (a + k) st = ((rt, None), st')" and "k \<le> fuel"
  shows "retryDo fuel a f st = (None, st')"
  using assms
proof (induction k arbitrary: a fuel)
  case 0
  then show ?case by (cases fuel) auto
next
  case (Suc k)
  from Suc.prems(3) obtain fuel' where fuel: "fuel = Suc fuel'" "k \<le> fuel'"
    by (cases fuel) auto
  from Suc.prems(1) obtain e where e: "f a st = ((True, Some e), st)" by force
  have "\<forall>j<k. \<exists>e. f (Suc a + j) st = ((True, Some e), st)"
    using Suc.prems(1) by (metis Suc_less_eq add_Suc_shift)
  moreover have "f (Suc a + k) st = ((rt, None), st')" using Suc.prems(2) by simp
  ultimately have "retryDo fuel' (Suc a) f st = (None, st')"
    using Suc.IH fuel(2) by blast
  with e fuel show ?case by simp
qed

lemma hd_sort_key_Min:
  assumes "xs \<noteq> []"
  shows "pin_Sequence (hd (sort_key pin_Sequence xs)) = Min (pin_Sequence ` set xs)"
proof -
  let ?ys = "map pin_Sequence (sort_key pin_Sequence xs)"
  have ne: "?ys \<noteq> []" using assms by (metis length_0_conv length_map length_sort)
  have "sorted ?ys" by simp
  then have "hd ?ys = Min (set ?ys)" using ne
    by (cases ?ys) (auto simp: Min_insert2 intro: antisym)
  moreover have "hd ?ys = pin_Sequence (hd (sort_key pin_Sequence xs))"
    using ne by (simp add: hd_map)
  moreover have "set ?ys = pin_Sequence ` set xs" by simp
  ultimately show ?thesis by simp
qed


lemma pinMatches_iff:
  "pinMatches batchIDs p = ((\<exists>b \<in> set batchIDs. pin_Batch p = Some b) \<and> \<not> pin_Dispatched p)"
  by (auto simp: pinMatches_def split: option.splits)

lemma rewind_result:
  assumes queued: "queuedRewinds \<noteq> []"
    and db: "\<exists>k \<le> fuel. dbError (Suc k) = None"
  shows "rewindOffchainBatches dbError pinsTable fuel queuedRewinds =
           (case filter (pinMatches queuedRewinds) pinsTable of
              [] \<Rightarrow> (False, 0)
            | p # ps \<Rightarrow>
                (True, Min (pin_Sequence ` set (filter (pinMatches queuedRewinds) pinsTable)) - 1))"
proof -
  define f where "f = (\<lambda>attempt (rewind :: bool, offset :: int).
                if length queuedRewinds > 0 then
                  (case GetPins dbError pinsTable attempt queuedRewinds of
                     Inl err \<Rightarrow> ((True, Some err), (rewind, offset))
                   | Inr sequences \<Rightarrow>
                       (case sequences of
                          [] \<Rightarrow> ((False, None), (rewind, offset))
                        | p # ps \<Rightarrow> ((False, None), (True, pin_Sequence p - 1))))
                else ((False, None), (rewind, offset)))"
  define ms where "ms = filter (pinMatches queuedRewinds) pinsTable"
  define res where "res = (case ms of [] \<Rightarrow> (False, 0::int)
            | p # ps \<Rightarrow> (True, Min (pin_Sequence ` set ms) - 1))"
  define k where "k = (LEAST k. dbError (Suc k) = None)"
  from db obtain k0 where k0: "k0 \<le> fuel" "dbError (Suc k0) = None" by blast
  have kok: "dbError (Suc k) = None" unfolding k_def using k0(2) by (rule LeastI)
  have kle: "k \<le> fuel" unfolding k_def using k0 Least_le[of "\<lambda>k. dbError (Suc k) = None" k0]
    by simp
  have kmin: "\<forall>j<k. dbError (Suc j) \<noteq> None"
    unfolding k_def using not_less_Least by blast
  have fail: "\<forall>j<k. \<exists>e. f (1 + j) (False, 0) = ((True, Some e), (False, 0))"
  proof (intro allI impI)
    fix j assume "j < k"
    with kmin obtain e where "dbError (Suc j) = Some e" by auto
    then have "f (1 + j) (False, 0) = ((True, Some e), (False, 0))"
      using queued by (simp add: f_def GetPins_def)
    then show "\<exists>e. f (1 + j) (False, 0) = ((True, Some e), (False, 0))" by blast
  qed
  have head: "take 1 (sort_key pin_Sequence ms) = [hd (sort_key pin_Sequence ms)]" if "ms \<noteq> []"
    using that by (cases "sort_key pin_Sequence ms") (auto dest: arg_cong[where f = length])
  have ok: "f (1 + k) (False, 0) = ((False, None), res)"
  proof (cases "ms = []")
    case True
    then show ?thesis
      using queued kok by (simp add: f_def GetPins_def res_def ms_def[symmetric])
  next
    case False
    then obtain p ps where "ms = p # ps" by (cases ms) auto
    then have r: "res = (True, Min (pin_Sequence ` set ms) - 1)"
      by (simp add: res_def)
    have g: "GetPins dbError pinsTable (1 + k) queuedRewinds = Inr [hd (sort_key pin_Sequence ms)]"
      unfolding GetPins_def ms_def[symmetric] using kok head[OF False] by simp
    have "f (1 + k) (False, 0) = ((False, None), (True, pin_Sequence (hd (sort_key pin_Sequence ms)) - 1))"
      unfolding f_def g using queued by simp
    then show ?thesis
      unfolding r hd_sort_key_Min[OF False] .
  qed
  have "retryDo fuel 1 f (False, 0) = (None, res)"
    by (rule retryDo_first_success[where f = f and a = 1 and k = k and st = "(False, 0)",
          OF fail ok kle])
  then have "rewindOffchainBatches dbError pinsTable fuel queuedRewinds = res"
    unfolding rewindOffchainBatches_def Let_def f_def[symmetric] by simp
  then show ?thesis
    unfolding res_def ms_def .
qed

text \<open>
  C5. When at least one batch id is queued and the query of the pins succeeds on some
  attempt before the context is cancelled: if some pin of the queued batches is not
  dispatched, the poller is told to rewind and the offset is the least sequence among those
  pins minus one; if there is none, no rewind is signalled.
\<close>

theorem rewind_to_earliest_undispatched:
  assumes queued: "queuedRewinds \<noteq> []"
    and db: "\<exists>k \<le> fuel. dbError (Suc k) = None"
  shows "((\<exists>p \<in> set pinsTable. (\<exists>b \<in> set queuedRewinds. pin_Batch p = Some b) \<and> \<not> pin_Dispatched p) \<longrightarrow>
            rewindOffchainBatches dbError pinsTable fuel queuedRewinds =
              (True,
               Min (pin_Sequence ` {p \<in> set pinsTable.
                      (\<exists>b \<in> set queuedRewinds. pin_Batch p = Some b) \<and> \<not> pin_Dispatched p}) - 1))
       \<and> (\<not> (\<exists>p \<in> set pinsTable. (\<exists>b \<in> set queuedRewinds. pin_Batch p = Some b) \<and> \<not> pin_Dispatched p) \<longrightarrow>
            fst (rewindOffchainBatches dbError pinsTable fuel queuedRewinds) = False)"
proof -
  let ?ms = "filter (pinMatches queuedRewinds) pinsTable"
  have set_ms: "set ?ms = {p \<in> set pinsTable.
                      (\<exists>b \<in> set queuedRewinds. pin_Batch p = Some b) \<and> \<not> pin_Dispatched p}"
    by (auto simp: pinMatches_iff)
  note r = rewind_result[OF queued db, of pinsTable]
  show ?thesis
  proof (intro conjI impI)
    assume "\<exists>p \<in> set pinsTable. (\<exists>b \<in> set queuedRewinds. pin_Batch p = Some b) \<and> \<not> pin_Dispatched p"
    then have "set ?ms \<noteq> {}" unfolding set_ms by blast
    then obtain p ps where "?ms = p # ps" by (cases ?ms) auto
    with r show "rewindOffchainBatches dbError pinsTable fuel queuedRewinds =
              (True,
               Min (pin_Sequence ` {p \<in> set pinsTable.
                      (\<exists>b \<in> set queuedRewinds. pin_Batch p = Some b) \<and> \<not> pin_Dispatched p}) - 1)"
      unfolding set_ms[symmetric] by simp
  next
    assume "\<not> (\<exists>p \<in> set pinsTable. (\<exists>b \<in> set queuedRewinds. pin_Batch p = Some b) \<and> \<not> pin_Dispatched p)"
    then have "set ?ms = {}" unfolding set_ms by blast
    then have "?ms = []" by simp
    with r show "fst (rewindOffchainBatches dbError pinsTable fuel queuedRewinds) = False"
      by simp
  qed
qed


theorem rewind_to_earliest_undispatched_witness:
  "[''B6''] \<noteq> [] \<and> flakyStore (Suc 1) = None \<and>
   pin_Batch (examplePin 7 1) = Some ''B6'' \<and> pin_Dispatched (examplePin 7 1) = False \<and>
   rewindOffchainBatches flakyStore examplePinsTable 3 [''B6''] = (True, 6) \<and>
   fst (rewindOffchainBatches flakyStore [(examplePin 5 0)\<lparr>pin_Dispatched := True\<rparr>] 3 [''B6'']) = False"
proof -
  have q: "[''B6''] \<noteq> []" by simp
  have db: "\<exists>k \<le> 3. flakyStore (Suc k) = None"
    by (rule exI[of _ 1]) (simp add: flakyStore_def)
  have p7: "pin_Batch (examplePin 7 1) = Some ''B6''" "pin_Dispatched (examplePin 7 1) = False"
    by (simp_all add: examplePin_def)
  have ex: "\<exists>p \<in> set examplePinsTable. (\<exists>b \<in> set [''B6'']. pin_Batch p = Some b) \<and> \<not> pin_Dispatched p"
    by (rule bexI[of _ "examplePin 7 1"]) (simp_all add: examplePinsTable_def examplePin_def)
  have m: "{p \<in> set examplePinsTable. (\<exists>b \<in> set [''B6'']. pin_Batch p = Some b) \<and> \<not> pin_Dispatched p}
         = {examplePin 9 2, examplePin 7 1}"
    by (auto simp: examplePinsTable_def examplePin_def)
  have nex: "\<not> (\<exists>p \<in> set [(examplePin 5 0)\<lparr>pin_Dispatched := True\<rparr>].
                (\<exists>b \<in> set [''B6'']. pin_Batch p = Some b) \<and> \<not> pin_Dispatched p)"
    by simp
  from rewind_to_earliest_undispatched[OF q db, THEN conjunct1, THEN mp, OF ex]
  have a: "rewindOffchainBatches flakyStore examplePinsTable 3 [''B6''] = (True, 6)"
    unfolding m by (simp add: examplePin_def)
  from rewind_to_earliest_undispatched[OF q db, THEN conjunct2, THEN mp, OF nex]
  have b: "fst (rewindOffchainBatches flakyStore [(examplePin 5 0)\<lparr>pin_Dispatched := True\<rparr>] 3 [''B6'']) = False" .
  have d: "flakyStore (Suc 1) = None" by (simp add: flakyStore_def)
  show ?thesis using q d p7 a b by blast
qed

subsection \<open>The rewind on the arrival of a blob\<close>

lemma messagesForData_last:
  assumes "\<forall>d \<in> set ds. \<exists>ms. g (dr_ID d) = Inr ms"
  shows "messagesForData g ds messages =
           (case ds of [] \<Rightarrow> Inr messages | _ \<Rightarrow> g (dr_ID (last ds)))"
  using assms
  by (induction ds arbitrary: messages) (auto split: list.splits sum.splits)

text \<open>
  C6 on the code: two data records \<open>d1\<close> and \<open>d2\<close> refer to the blob \<open>h\<close>; the
  unconfirmed message \<open>m1\<close> of batch \<open>B1\<close> refers to \<open>d1\<close>, no message refers to \<open>d2\<close>.
  On the arrival of \<open>h\<close> nothing is queued for rewind: the messages found for \<open>d1\<close>
  are replaced by those found for \<open>d2\<close>.
\<close>

theorem blob_arrival_keeps_last_data_only:
  "rewindForBlobArrival (storeGetDataRefs blobStore) (storeGetMessagesForData blobStore) ''h'' []
     = (None, []) \<and>
   map data_ID (filter (referencesBlob ''h'') (st_Data blobStore)) = [''d1'', ''d2''] \<and>
   storeGetMessagesForData blobStore ''d1'' = Inr [blobMessage] \<and>
   msg_Confirmed blobMessage = None \<and> msg_BatchID blobMessage = Some ''B1''"
  by (simp add: rewindForBlobArrival_def storeGetDataRefs_def storeGetMessagesForData_def
      blobStore_def blobMessage_def blobData_def referencesBlob_def unconfirmedFor_def
      uniqueBatchIDs_def exampleMessage_def)

subsection \<open>Sending a private batch\<close>









end
